theory Spec2Isabelle
  imports Complex_Main "HOL-Library.AList"
begin

section \<open>Numeric model\<close>

text \<open>
  The camera of \<^verbatim>\<open>manimlib/camera/camera.py\<close> computes with Python floats and numpy
  arrays of floats. They are idealised here as real numbers: a vector of three floats is a
  triple of reals, a 3x3 array is a triple of rows. Rounding and NaN are outside the model.
\<close>

type_synonym vec3 = "real \<times> real \<times> real"
type_synonym quat = "real \<times> real \<times> real \<times> real"
type_synonym mat3 = "vec3 \<times> vec3 \<times> vec3"

datatype error = IndexError | KeyError | TypeError | ShaderCompileError | ImageLoadError

subsection \<open>Constants and helpers imported by the camera module\<close>

text \<open>
  Modelled from the spec: the constants \<^verbatim>\<open>PI\<close>, \<^verbatim>\<open>OUT\<close>, \<^verbatim>\<open>RIGHT\<close>, \<^verbatim>\<open>RADIANS\<close> and
  \<^verbatim>\<open>DEGREES\<close> of \<^verbatim>\<open>manimlib.constants\<close>, which is not among the sources. Angles are stored
  in radians; \<^verbatim>\<open>reorient\<close> takes degrees; the forward axis is the z axis and the fixed
  reference axis is the x axis.
\<close>

definition PI :: real where
  "PI = pi"

definition OUT :: vec3 where
  "OUT = (0, 0, 1)"

definition RIGHT :: vec3 where
  "RIGHT = (1, 0, 0)"

definition RADIANS :: real where
  "RADIANS = 1"

definition DEGREES :: real where
  "DEGREES = pi / 180"

text \<open>
  Modelled from the spec: \<^verbatim>\<open>clip\<close> of \<^verbatim>\<open>manimlib.utils.simple_functions\<close>, not among the
  sources. It clamps its first argument into the closed interval given by the other two.
\<close>

definition clip :: "real \<Rightarrow> real \<Rightarrow> real \<Rightarrow> real" where
  "clip a min_a max_a = (if a < min_a then min_a else if a > max_a then max_a else a)"

text \<open>Row access, transposition and \<^verbatim>\<open>np.dot\<close> on 3x3 arrays and vectors.\<close>

definition dot3 :: "vec3 \<Rightarrow> vec3 \<Rightarrow> real" where
  "dot3 u v = (case u of (a, b, c) \<Rightarrow> case v of (x, y, z) \<Rightarrow> a * x + b * y + c * z)"

definition row0 :: "mat3 \<Rightarrow> vec3" where
  "row0 m = fst m"

definition row1 :: "mat3 \<Rightarrow> vec3" where
  "row1 m = fst (snd m)"

definition row2 :: "mat3 \<Rightarrow> vec3" where
  "row2 m = snd (snd m)"

definition col0 :: "mat3 \<Rightarrow> vec3" where
  "col0 m = (fst (row0 m), fst (row1 m), fst (row2 m))"

definition col1 :: "mat3 \<Rightarrow> vec3" where
  "col1 m = (fst (snd (row0 m)), fst (snd (row1 m)), fst (snd (row2 m)))"

definition col2 :: "mat3 \<Rightarrow> vec3" where
  "col2 m = (snd (snd (row0 m)), snd (snd (row1 m)), snd (snd (row2 m)))"

definition mat_T :: "mat3 \<Rightarrow> mat3" where
  "mat_T m = (col0 m, col1 m, col2 m)"

definition vec_mat :: "vec3 \<Rightarrow> mat3 \<Rightarrow> vec3" where
  "vec_mat v m = (dot3 v (col0 m), dot3 v (col1 m), dot3 v (col2 m))"

definition np_dot :: "mat3 \<Rightarrow> mat3 \<Rightarrow> mat3" where
  "np_dot a b = (vec_mat (row0 a) b, vec_mat (row1 a) b, vec_mat (row2 a) b)"

text \<open>
  Modelled from the spec: the quaternion helpers of \<^verbatim>\<open>manimlib.utils.space_ops\<close>, not among
  the sources. A quaternion is \<open>(w, x, y, z)\<close>; \<^verbatim>\<open>quaternion_mult\<close> folds the Hamilton
  product over its arguments from the left; \<^verbatim>\<open>quaternion_from_angle_axis\<close> is
  \<open>(cos (angle/2), sin (angle/2) * axis)\<close> for a unit axis and normalises the axis first
  unless told it is normalised; \<^verbatim>\<open>rotation_matrix_transpose_from_quaternion\<close> has as its
  rows the images of the three basis vectors under conjugation by the quaternion, which is
  the transpose of the rotation matrix of the quaternion.
\<close>

definition quat_mult2 :: "quat \<Rightarrow> quat \<Rightarrow> quat" where
  "quat_mult2 p q =
     (case p of (w1, x1, y1, z1) \<Rightarrow> case q of (w2, x2, y2, z2) \<Rightarrow>
        (w1 * w2 - x1 * x2 - y1 * y2 - z1 * z2,
         w1 * x2 + x1 * w2 + y1 * z2 - z1 * y2,
         w1 * y2 + y1 * w2 + z1 * x2 - x1 * z2,
         w1 * z2 + z1 * w2 + x1 * y2 - y1 * x2))"

fun quaternion_mult :: "quat list \<Rightarrow> quat" where
  "quaternion_mult [] = (1, 0, 0, 0)"
| "quaternion_mult (q # qs) = foldl quat_mult2 q qs"

definition quaternion_conjugate :: "quat \<Rightarrow> quat" where
  "quaternion_conjugate q = (case q of (w, x, y, z) \<Rightarrow> (w, - x, - y, - z))"

definition get_norm :: "vec3 \<Rightarrow> real" where
  "get_norm v = sqrt (dot3 v v)"

definition normalize :: "vec3 \<Rightarrow> vec3" where
  "normalize v =
     (let n = get_norm v
      in if n > 0 then (case v of (x, y, z) \<Rightarrow> (x / n, y / n, z / n)) else (0, 0, 0))"

definition quaternion_from_angle_axis :: "real \<Rightarrow> vec3 \<Rightarrow> bool \<Rightarrow> quat" where
  "quaternion_from_angle_axis angle axis axis_normalized =
     (case (if axis_normalized then axis else normalize axis) of (x, y, z) \<Rightarrow>
        (cos (angle / 2), sin (angle / 2) * x, sin (angle / 2) * y, sin (angle / 2) * z))"

definition quat_vec :: "quat \<Rightarrow> vec3" where
  "quat_vec q = (case q of (w, x, y, z) \<Rightarrow> (x, y, z))"

definition conjugate_basis :: "quat \<Rightarrow> vec3 \<Rightarrow> vec3" where
  "conjugate_basis q b =
     (case b of (x, y, z) \<Rightarrow>
        quat_vec (quaternion_mult [q, (0, x, y, z), quaternion_conjugate q]))"

definition rotation_matrix_transpose_from_quaternion :: "quat \<Rightarrow> mat3" where
  "rotation_matrix_transpose_from_quaternion q =
     (conjugate_basis q (1, 0, 0), conjugate_basis q (0, 1, 0), conjugate_basis q (0, 0, 1))"

text \<open>
  Modelled from the spec: \<^verbatim>\<open>rotation_matrix_transpose\<close> of \<^verbatim>\<open>manimlib.utils.space_ops\<close>,
  not among the sources: the transpose of the rotation matrix for an angle about an axis,
  with the direct formula when the axis lies along z.
\<close>

definition rotation_matrix_transpose :: "real \<Rightarrow> vec3 \<Rightarrow> mat3" where
  "rotation_matrix_transpose angle axis =
     (case axis of (ax, ay, az) \<Rightarrow>
        if ax = 0 \<and> ay = 0 then
          (let sgn = (if az > 0 then 1 else - 1);
               cos_a = cos angle;
               sin_a = sin angle * sgn
           in ((cos_a, sin_a, 0), (- sin_a, cos_a, 0), (0, 0, 1)))
        else rotation_matrix_transpose_from_quaternion
               (quaternion_from_angle_axis angle axis False))"

text \<open>
  Modelled from the spec: \<^verbatim>\<open>angle_of_vector\<close> of \<^verbatim>\<open>manimlib.utils.space_ops\<close>, not among
  the sources: the polar angle in \<open>(-pi, pi]\<close> of the first two coordinates, and 0 for the
  zero vector.
\<close>

definition angle_of_xy :: "real \<Rightarrow> real \<Rightarrow> real" where
  "angle_of_xy x y =
     (let r = sqrt (x * x + y * y)
      in if r = 0 then 0 else if y \<ge> 0 then arccos (x / r) else - arccos (x / r))"

definition angle_of_vector :: "vec3 \<Rightarrow> real" where
  "angle_of_vector v = (case v of (x, y, z) \<Rightarrow> angle_of_xy x y)"

section \<open>CameraFrame\<close>

text \<open>
  The frame keeps its five control points (centre, left, right, bottom, top), the Euler
  triple \<open>(theta, phi, gamma)\<close> of \<^verbatim>\<open>data["euler_angles"]\<close>, the derived inverse rotation
  matrix and the focal distance ratio.
\<close>

record camera_frame =
  points :: "vec3 list"
  euler_angles :: "real \<times> real \<times> real"
  inverse_camera_rotation_matrix :: mat3
  focal_distance :: real

definition get_euler_angles :: "camera_frame \<Rightarrow> real \<times> real \<times> real" where
  "get_euler_angles f = euler_angles f"

definition theta_of :: "camera_frame \<Rightarrow> real" where
  "theta_of f = fst (euler_angles f)"

definition phi_of :: "camera_frame \<Rightarrow> real" where
  "phi_of f = fst (snd (euler_angles f))"

definition gamma_of :: "camera_frame \<Rightarrow> real" where
  "gamma_of f = snd (snd (euler_angles f))"

definition get_inverse_camera_rotation_matrix :: "camera_frame \<Rightarrow> mat3" where
  "get_inverse_camera_rotation_matrix f = inverse_camera_rotation_matrix f"

text \<open>The matrix that \<^verbatim>\<open>refresh_rotation_matrix\<close> computes from an Euler triple.\<close>

definition euler_rotation_matrix :: "real \<times> real \<times> real \<Rightarrow> mat3" where
  "euler_rotation_matrix e =
     (case e of (theta, phi, gamma) \<Rightarrow>
        rotation_matrix_transpose_from_quaternion
          (quaternion_mult
             [quaternion_from_angle_axis theta OUT True,
              quaternion_from_angle_axis phi RIGHT True,
              quaternion_from_angle_axis gamma OUT True]))"

definition refresh_rotation_matrix :: "camera_frame \<Rightarrow> camera_frame" where
  "refresh_rotation_matrix f =
     f\<lparr>inverse_camera_rotation_matrix := euler_rotation_matrix (get_euler_angles f)\<rparr>"

definition set_euler_angles ::
  "real option \<Rightarrow> real option \<Rightarrow> real option \<Rightarrow> real \<Rightarrow> camera_frame \<Rightarrow> camera_frame" where
  "set_euler_angles theta phi gamma units f =
     (let f1 = (case theta of None \<Rightarrow> f
                | Some t \<Rightarrow> f\<lparr>euler_angles := (t * units, phi_of f, gamma_of f)\<rparr>);
          f2 = (case phi of None \<Rightarrow> f1
                | Some p \<Rightarrow> f1\<lparr>euler_angles := (theta_of f1, p * units, gamma_of f1)\<rparr>);
          f3 = (case gamma of None \<Rightarrow> f2
                | Some g \<Rightarrow> f2\<lparr>euler_angles := (theta_of f2, phi_of f2, g * units)\<rparr>)
      in refresh_rotation_matrix f3)"

definition rotate_frame :: "real \<Rightarrow> vec3 \<Rightarrow> camera_frame \<Rightarrow> camera_frame" where
  "rotate_frame angle axis f =
     (let curr_rot_T = get_inverse_camera_rotation_matrix f;
          added_rot_T = rotation_matrix_transpose angle axis;
          new_rot_T = np_dot curr_rot_T added_rot_T;
          Fz = row2 new_rot_T;
          phi = arccos (clip (snd (snd Fz)) (- 1) 1);
          theta = angle_of_vector Fz + PI / 2;
          partial_rot_T = np_dot (rotation_matrix_transpose phi RIGHT)
                                 (rotation_matrix_transpose theta OUT);
          gamma = angle_of_vector (col0 (np_dot partial_rot_T (mat_T new_rot_T)))
      in set_euler_angles (Some theta) (Some phi) (Some gamma) RADIANS f)"

definition reorient :: "real option \<Rightarrow> real option \<Rightarrow> real option \<Rightarrow> camera_frame \<Rightarrow> camera_frame" where
  "reorient theta_degrees phi_degrees gamma_degrees f =
     set_euler_angles theta_degrees phi_degrees gamma_degrees DEGREES f"

definition set_theta :: "real \<Rightarrow> camera_frame \<Rightarrow> camera_frame" where
  "set_theta theta f = set_euler_angles (Some theta) None None RADIANS f"

definition set_phi :: "real \<Rightarrow> camera_frame \<Rightarrow> camera_frame" where
  "set_phi phi f = set_euler_angles None (Some phi) None RADIANS f"

definition set_gamma :: "real \<Rightarrow> camera_frame \<Rightarrow> camera_frame" where
  "set_gamma gamma f = set_euler_angles None None (Some gamma) RADIANS f"

definition increment_theta :: "real \<Rightarrow> camera_frame \<Rightarrow> camera_frame" where
  "increment_theta dtheta f =
     refresh_rotation_matrix (f\<lparr>euler_angles := (theta_of f + dtheta, phi_of f, gamma_of f)\<rparr>)"

definition increment_phi :: "real \<Rightarrow> camera_frame \<Rightarrow> camera_frame" where
  "increment_phi dphi f =
     (let phi = phi_of f;
          new_phi = clip (phi + dphi) 0 PI
      in refresh_rotation_matrix (f\<lparr>euler_angles := (theta_of f, new_phi, gamma_of f)\<rparr>))"

definition increment_gamma :: "real \<Rightarrow> camera_frame \<Rightarrow> camera_frame" where
  "increment_gamma dgamma f =
     refresh_rotation_matrix (f\<lparr>euler_angles := (theta_of f, phi_of f, gamma_of f + dgamma)\<rparr>)"

text \<open>
  \<^verbatim>\<open>points[2, 0] - points[1, 0]\<close> and \<^verbatim>\<open>points[4, 1] - points[3, 1]\<close>: numpy raises
  IndexError when the array has too few rows.
\<close>

definition get_width :: "camera_frame \<Rightarrow> error + real" where
  "get_width f =
     (let ps = points f
      in if length ps > 2 then Inr (fst (ps ! 2) - fst (ps ! 1)) else Inl IndexError)"

definition get_height :: "camera_frame \<Rightarrow> error + real" where
  "get_height f =
     (let ps = points f
      in if length ps > 4 then Inr (fst (snd (ps ! 4)) - fst (snd (ps ! 3))) else Inl IndexError)"

text \<open>The pose-mutating operations as data, to speak about sequences of them.\<close>

datatype pose_op =
    SetEulerAngles "real option" "real option" "real option" real
  | SetPhi real
  | Reorient "real option" "real option" "real option"
  | IncrementTheta real
  | IncrementPhi real
  | IncrementGamma real
  | Rotate real vec3

fun apply_pose_op :: "camera_frame \<Rightarrow> pose_op \<Rightarrow> camera_frame" where
  "apply_pose_op f (SetEulerAngles t p g u) = set_euler_angles t p g u f"
| "apply_pose_op f (SetPhi p) = set_phi p f"
| "apply_pose_op f (Reorient t p g) = reorient t p g f"
| "apply_pose_op f (IncrementTheta d) = increment_theta d f"
| "apply_pose_op f (IncrementPhi d) = increment_phi d f"
| "apply_pose_op f (IncrementGamma d) = increment_gamma d f"
| "apply_pose_op f (Rotate a ax) = rotate_frame a ax f"

definition phi_in_range :: "camera_frame \<Rightarrow> bool" where
  "phi_in_range f = (0 \<le> phi_of f \<and> phi_of f \<le> pi)"



text \<open>One partial \<^verbatim>\<open>set_euler_angles\<close> call: the three optional angles and the unit.\<close>

type_synonym angle_call = "real option \<times> real option \<times> real option \<times> real"

definition do_call :: "camera_frame \<Rightarrow> angle_call \<Rightarrow> camera_frame" where
  "do_call f c = (case c of (t, p, g, u) \<Rightarrow> set_euler_angles t p g u f)"

definition merge_angles :: "angle_call \<Rightarrow> real \<times> real \<times> real \<Rightarrow> real \<times> real \<times> real" where
  "merge_angles c e =
     (case c of (t, p, g, u) \<Rightarrow> case e of (theta, phi, gamma) \<Rightarrow>
        ((case t of None \<Rightarrow> theta | Some x \<Rightarrow> x * u),
         (case p of None \<Rightarrow> phi | Some x \<Rightarrow> x * u),
         (case g of None \<Rightarrow> gamma | Some x \<Rightarrow> x * u)))"

text \<open>
  Notions for reasoning about the rotation matrices: the cross product, proper rotations
  given by their rows (orthonormal and right-handed), and the squared norm of a quaternion.
\<close>

definition cross3 :: "vec3 \<Rightarrow> vec3 \<Rightarrow> vec3" where
  "cross3 u v =
     (case u of (a, b, c) \<Rightarrow> case v of (x, y, z) \<Rightarrow>
        (b * z - c * y, c * x - a * z, a * y - b * x))"

definition is_rotation :: "mat3 \<Rightarrow> bool" where
  "is_rotation m =
     (dot3 (row0 m) (row0 m) = 1 \<and> dot3 (row1 m) (row1 m) = 1 \<and> dot3 (row2 m) (row2 m) = 1 \<and>
      dot3 (row0 m) (row1 m) = 0 \<and> dot3 (row0 m) (row2 m) = 0 \<and> dot3 (row1 m) (row2 m) = 0 \<and>
      cross3 (row2 m) (row0 m) = row1 m)"

definition quat_norm2 :: "quat \<Rightarrow> real" where
  "quat_norm2 q = (case q of (w, x, y, z) \<Rightarrow> w * w + x * x + y * y + z * z)"

section \<open>Camera\<close>

subsection \<open>The graphics context and the collaborators\<close>

text \<open>
  The graphics context hands out objects (buffers, vertex arrays, textures, programs). An
  object is a number; \<open>next_glo\<close> is the next one to hand out, \<open>alive\<close> holds the buffers,
  vertex arrays and textures created and not yet released, \<open>programs\<close> is the store of the
  compiled programs, which are mutable objects shared by reference, and \<open>texture_units\<close>
  records which texture is bound to which slot.
\<close>

datatype uvalue = Num real | IntVal nat | NdArray "real list" | Tuple "real list"

record program =
  members :: "string list"
  uniform_values :: "string \<rightharpoonup> uvalue"

record gl_context =
  next_glo :: nat
  alive :: "nat set"
  programs :: "nat \<rightharpoonup> program"
  texture_units :: "nat \<rightharpoonup> nat"

text \<open>
  What the camera cannot decide by itself: whether a program source compiles and which
  members (uniform names) the compiled program has, the vertex format that
  \<^verbatim>\<open>moderngl.detect_format\<close> reads off, and whether an image file can be opened.
\<close>

type_synonym program_code = "(string \<times> string) list"

record driver =
  compile :: "program_code \<Rightarrow> string list option"
  detect_format :: "program_code \<Rightarrow> string list \<Rightarrow> string"
  image_ok :: "string \<Rightarrow> bool"

text \<open>
  A shader unit as the camera reads it: vertex bytes, optional indices, attribute names,
  the uniforms and the texture paths (Python dicts, kept as association lists in iteration
  order), the flags, and the results of \<^verbatim>\<open>get_program_id()\<close> and \<^verbatim>\<open>get_program_code()\<close>.
\<close>

record shader_wrapper =
  vert_data :: "nat list"
  vert_indices :: "nat list option"
  vert_attributes :: "string list"
  uniforms :: "(string \<times> uvalue) list"
  texture_paths :: "(string \<times> string) list"
  depth_test :: bool
  render_primitive :: nat
  program_id :: string
  program_code :: program_code

record mobject =
  mob_id :: nat
  shader_wrapper_list :: "shader_wrapper list"

record render_group =
  vbo :: nat
  ibo :: "nat option"
  vao :: nat
  prog :: nat
  rg_shader_wrapper :: shader_wrapper
  single_use :: bool

record camera =
  frame :: camera_frame
  ctx :: gl_context
  id_to_shader_program :: "string \<rightharpoonup> (nat \<times> string) option"
  perspective_uniforms :: "(string \<times> uvalue) list"
  n_textures :: nat
  path_to_texture :: "string \<rightharpoonup> (nat \<times> nat)"
  static_mobject_to_render_group_list :: "(nat \<times> render_group list) list"

text \<open>\<^verbatim>\<open>ctx.buffer\<close>, \<^verbatim>\<open>ctx.vertex_array\<close>, \<^verbatim>\<open>ctx.texture\<close>: a fresh live object.\<close>

definition new_object :: "gl_context \<Rightarrow> nat \<times> gl_context" where
  "new_object c =
     (next_glo c, c\<lparr>next_glo := Suc (next_glo c), alive := insert (next_glo c) (alive c)\<rparr>)"

text \<open>\<^verbatim>\<open>.release()\<close> on a buffer, vertex array or texture.\<close>

definition release_object :: "nat \<Rightarrow> gl_context \<Rightarrow> gl_context" where
  "release_object h c = c\<lparr>alive := alive c - {h}\<rparr>"

text \<open>\<^verbatim>\<open>ctx.program\<close> after a successful compilation: a fresh program with no uniform set.\<close>

definition new_program :: "string list \<Rightarrow> gl_context \<Rightarrow> nat \<times> gl_context" where
  "new_program ms c =
     (next_glo c,
      c\<lparr>next_glo := Suc (next_glo c),
        programs := (programs c)(next_glo c \<mapsto> \<lparr>members = ms, uniform_values = Map.empty\<rparr>)\<rparr>)"

text \<open>
  \<^verbatim>\<open>shader[name].value = v\<close>: KeyError when the program has no member of that name. A
  number that is no program of the context stands for a value that is no program at all
  (\<^verbatim>\<open>None\<close>), on which subscripting is a TypeError.
\<close>

definition program_set :: "nat \<Rightarrow> string \<Rightarrow> uvalue \<Rightarrow> gl_context \<Rightarrow> (error + unit) \<times> gl_context" where
  "program_set shader name v c =
     (case programs c shader of
        None \<Rightarrow> (Inl TypeError, c)
      | Some p \<Rightarrow>
          if name \<in> set (members p)
          then (Inr (),
                c\<lparr>programs := (programs c)(shader \<mapsto> p\<lparr>uniform_values := (uniform_values p)(name \<mapsto> v)\<rparr>)\<rparr>)
          else (Inl KeyError, c))"

subsection \<open>Shader programs\<close>

definition init_shaders :: "camera \<Rightarrow> camera" where
  "init_shaders cam = cam\<lparr>id_to_shader_program := ['''' \<mapsto> None]\<rparr>"

definition get_shader_program ::
  "driver \<Rightarrow> shader_wrapper \<Rightarrow> camera \<Rightarrow> (error + (nat \<times> string) option) \<times> camera" where
  "get_shader_program drv sw cam =
     (let sid = program_id sw
      in case id_to_shader_program cam sid of
           Some entry \<Rightarrow> (Inr entry, cam)
         | None \<Rightarrow>
             (case compile drv (program_code sw) of
                None \<Rightarrow> (Inl ShaderCompileError, cam)
              | Some ms \<Rightarrow>
                  (let (program, c') = new_program ms (ctx cam);
                       vert_format = detect_format drv (program_code sw) (vert_attributes sw);
                       cam' = cam\<lparr>ctx := c',
                                  id_to_shader_program :=
                                    (id_to_shader_program cam)(sid \<mapsto> Some (program, vert_format))\<rparr>
                   in (Inr (Some (program, vert_format)), cam'))))"

subsection \<open>Textures\<close>

definition init_textures :: "camera \<Rightarrow> camera" where
  "init_textures cam = cam\<lparr>n_textures := 0, path_to_texture := Map.empty\<rparr>"

text \<open>
  The slot counter is advanced before the image is opened, so a failed load leaves it
  advanced.
\<close>

definition get_texture_id :: "driver \<Rightarrow> string \<Rightarrow> camera \<Rightarrow> (error + nat) \<times> camera" where
  "get_texture_id drv path cam =
     (case path_to_texture cam path of
        Some entry \<Rightarrow> (Inr (fst entry), cam)
      | None \<Rightarrow>
          (let tid = n_textures cam;
               cam1 = cam\<lparr>n_textures := n_textures cam + 1\<rparr>
           in if \<not> image_ok drv path then (Inl ImageLoadError, cam1)
              else (let (texture, c1) = new_object (ctx cam1);
                        c2 = c1\<lparr>texture_units := (texture_units c1)(tid \<mapsto> texture)\<rparr>;
                        cam2 = cam1\<lparr>ctx := c2,
                                    path_to_texture := (path_to_texture cam1)(path \<mapsto> (tid, texture))\<rparr>
                    in (Inr tid, cam2))))"

definition release_texture :: "string \<Rightarrow> camera \<Rightarrow> camera" where
  "release_texture path cam =
     (case path_to_texture cam path of
        None \<Rightarrow> cam
      | Some tid_and_texture \<Rightarrow>
          cam\<lparr>path_to_texture := (path_to_texture cam)(path := None),
              ctx := release_object (snd tid_and_texture) (ctx cam)\<rparr>)"

subsection \<open>Render groups and the static index\<close>

text \<open>
  \<^verbatim>\<open>get_render_group\<close> unpacks the result of \<^verbatim>\<open>get_shader_program\<close> into two names, which
  is a TypeError when the result is \<^verbatim>\<open>None\<close>. The buffers created before an error stay
  created.
  Creating a buffer or a vertex array is taken to succeed; of the failures of the graphics
  library only a program that does not compile is modelled.
\<close>

definition get_render_group ::
  "driver \<Rightarrow> shader_wrapper \<Rightarrow> bool \<Rightarrow> camera \<Rightarrow> (error + render_group) \<times> camera" where
  "get_render_group drv sw su cam =
     (let (vbo_h, c1) = new_object (ctx cam);
          (ibo_h, c2) = (case vert_indices sw of
                           None \<Rightarrow> (None, c1)
                         | Some inds \<Rightarrow>
                             if inds \<noteq> [] then (case new_object c1 of (h, c) \<Rightarrow> (Some h, c))
                             else (None, c1));
          (r, cam1) = get_shader_program drv sw (cam\<lparr>ctx := c2\<rparr>)
      in case r of
           Inl e \<Rightarrow> (Inl e, cam1)
         | Inr None \<Rightarrow> (Inl TypeError, cam1)
         | Inr (Some (shader_program, vert_format)) \<Rightarrow>
             (let (vao_h, c3) = new_object (ctx cam1)
              in (Inr \<lparr>vbo = vbo_h, ibo = ibo_h, vao = vao_h, prog = shader_program,
                       rg_shader_wrapper = sw, single_use = su\<rparr>,
                  cam1\<lparr>ctx := c3\<rparr>)))"

definition release_render_group :: "render_group \<Rightarrow> camera \<Rightarrow> camera" where
  "release_render_group rg cam =
     (let c1 = release_object (vbo rg) (ctx cam);
          c2 = (case ibo rg of None \<Rightarrow> c1 | Some h \<Rightarrow> release_object h c1);
          c3 = release_object (vao rg) c2
      in cam\<lparr>ctx := c3\<rparr>)"

text \<open>The list comprehension of \<^verbatim>\<open>set_mobjects_as_static\<close>: one persistent group per unit.\<close>

fun build_groups ::
  "driver \<Rightarrow> shader_wrapper list \<Rightarrow> camera \<Rightarrow> (error + render_group list) \<times> camera" where
  "build_groups drv [] cam = (Inr [], cam)"
| "build_groups drv (sw # sws) cam =
     (case get_render_group drv sw False cam of
        (Inl e, cam1) \<Rightarrow> (Inl e, cam1)
      | (Inr g, cam1) \<Rightarrow>
          (case build_groups drv sws cam1 of
             (Inl e, cam2) \<Rightarrow> (Inl e, cam2)
           | (Inr gs, cam2) \<Rightarrow> (Inr (g # gs), cam2)))"

text \<open>
  The index is a dict keyed by \<^verbatim>\<open>id(mob)\<close>: assigning to a key that is present replaces its
  value in place, assigning to a new key appends an entry.
\<close>

fun set_mobjects_as_static :: "driver \<Rightarrow> mobject list \<Rightarrow> camera \<Rightarrow> (error + unit) \<times> camera" where
  "set_mobjects_as_static drv [] cam = (Inr (), cam)"
| "set_mobjects_as_static drv (mob # mobs) cam =
     (case build_groups drv (shader_wrapper_list mob) cam of
        (Inl e, cam1) \<Rightarrow> (Inl e, cam1)
      | (Inr gs, cam1) \<Rightarrow>
          set_mobjects_as_static drv mobs
            (cam1\<lparr>static_mobject_to_render_group_list :=
                    AList.update (mob_id mob) gs (static_mobject_to_render_group_list cam1)\<rparr>))"

definition release_static_mobjects :: "camera \<Rightarrow> camera" where
  "release_static_mobjects cam =
     (foldl (\<lambda>c rg. release_render_group rg c) cam
        (concat (map snd (static_mobject_to_render_group_list cam))))
     \<lparr>static_mobject_to_render_group_list := []\<rparr>"

subsection \<open>Uniforms\<close>

text \<open>\<^verbatim>\<open>if isinstance(value, np.ndarray): value = tuple(value)\<close>\<close>

definition as_uniform_value :: "uvalue \<Rightarrow> uvalue" where
  "as_uniform_value v = (case v of NdArray xs \<Rightarrow> Tuple xs | _ \<Rightarrow> v)"

text \<open>
  The first loop of \<^verbatim>\<open>set_shader_uniforms\<close>: each texture is resolved to its slot and the
  slot is assigned to the sampler of that name, outside any \<^verbatim>\<open>try\<close>.
\<close>

fun bind_textures ::
  "driver \<Rightarrow> nat \<Rightarrow> (string \<times> string) list \<Rightarrow> camera \<Rightarrow> (error + unit) \<times> camera" where
  "bind_textures drv shader [] cam = (Inr (), cam)"
| "bind_textures drv shader ((name, path) # rest) cam =
     (case get_texture_id drv path cam of
        (Inl e, cam1) \<Rightarrow> (Inl e, cam1)
      | (Inr tid, cam1) \<Rightarrow>
          (case program_set shader name (IntVal tid) (ctx cam1) of
             (Inl e, c) \<Rightarrow> (Inl e, cam1\<lparr>ctx := c\<rparr>)
           | (Inr u, c) \<Rightarrow> bind_textures drv shader rest (cam1\<lparr>ctx := c\<rparr>)))"

text \<open>
  The second loop: the assignment is inside \<^verbatim>\<open>try ... except KeyError: pass\<close>, so a
  KeyError moves on to the next uniform and any other error leaves the loop.
\<close>

fun bind_uniforms ::
  "nat \<Rightarrow> (string \<times> uvalue) list \<Rightarrow> gl_context \<Rightarrow> (error + unit) \<times> gl_context" where
  "bind_uniforms shader [] c = (Inr (), c)"
| "bind_uniforms shader ((name, v) # rest) c =
     (case program_set shader name (as_uniform_value v) c of
        (Inl e, c1) \<Rightarrow> if e = KeyError then bind_uniforms shader rest c1 else (Inl e, c1)
      | (Inr u, c1) \<Rightarrow> bind_uniforms shader rest c1)"

definition set_shader_uniforms ::
  "driver \<Rightarrow> nat \<Rightarrow> shader_wrapper \<Rightarrow> camera \<Rightarrow> (error + unit) \<times> camera" where
  "set_shader_uniforms drv shader sw cam =
     (case bind_textures drv shader (texture_paths sw) cam of
        (Inl e, cam1) \<Rightarrow> (Inl e, cam1)
      | (Inr u, cam1) \<Rightarrow>
          (case bind_uniforms shader (uniforms sw @ perspective_uniforms cam1) (ctx cam1) of
             (r, c) \<Rightarrow> (r, cam1\<lparr>ctx := c\<rparr>)))"

subsection \<open>Construction and reachable cameras\<close>

text \<open>
  \<^verbatim>\<open>Camera.__init__\<close>: the frame, the context and the perspective uniforms come from
  \<^verbatim>\<open>init_frame\<close>, \<^verbatim>\<open>init_context\<close> and \<^verbatim>\<open>refresh_perspective_uniforms\<close> and are taken as
  given; the caches and the static index start as the source sets them.
\<close>

definition init_camera :: "camera_frame \<Rightarrow> gl_context \<Rightarrow> (string \<times> uvalue) list \<Rightarrow> camera" where
  "init_camera fr c pu =
     (init_textures (init_shaders
        \<lparr>frame = fr, ctx = c, id_to_shader_program = Map.empty, perspective_uniforms = pu,
         n_textures = 0, path_to_texture = Map.empty,
         static_mobject_to_render_group_list = []\<rparr>))
     \<lparr>static_mobject_to_render_group_list := []\<rparr>"

text \<open>
  The cameras that the methods of the class can produce from a fresh one. Changing the
  frame or recomputing the perspective uniforms touches no cache.
\<close>

inductive reachable :: "driver \<Rightarrow> camera \<Rightarrow> bool" for drv :: driver where
  r_init: "reachable drv (init_camera fr c pu)"
| r_frame: "reachable drv cam \<Longrightarrow> reachable drv (cam\<lparr>frame := fr\<rparr>)"
| r_perspective: "reachable drv cam \<Longrightarrow> reachable drv (cam\<lparr>perspective_uniforms := pu\<rparr>)"
| r_program: "reachable drv cam \<Longrightarrow> reachable drv (snd (get_shader_program drv sw cam))"
| r_texture: "reachable drv cam \<Longrightarrow> reachable drv (snd (get_texture_id drv path cam))"
| r_release_texture: "reachable drv cam \<Longrightarrow> reachable drv (release_texture path cam)"
| r_group: "reachable drv cam \<Longrightarrow> reachable drv (snd (get_render_group drv sw su cam))"
| r_release_group: "reachable drv cam \<Longrightarrow> reachable drv (release_render_group rg cam)"
| r_static: "reachable drv cam \<Longrightarrow> reachable drv (snd (set_mobjects_as_static drv mobs cam))"
| r_release_static: "reachable drv cam \<Longrightarrow> reachable drv (release_static_mobjects cam)"
| r_uniforms: "reachable drv cam \<Longrightarrow> reachable drv (snd (set_shader_uniforms drv shader sw cam))"

text \<open>What every reachable camera satisfies.\<close>

definition camera_inv :: "camera \<Rightarrow> bool" where
  "camera_inv cam =
     (id_to_shader_program cam [] = Some None \<and>
      (\<forall>path tid texture. path_to_texture cam path = Some (tid, texture) \<longrightarrow> tid < n_textures cam) \<and>
      distinct (map fst (static_mobject_to_render_group_list cam)))"

text \<open>
  How building programs and render groups may change a camera: no object is released, no
  object number is reused, the texture cache is untouched and no cached program is lost.
\<close>

definition grows :: "camera \<Rightarrow> camera \<Rightarrow> bool" where
  "grows cam cam' =
     (alive (ctx cam) \<subseteq> alive (ctx cam') \<and>
      next_glo (ctx cam) \<le> next_glo (ctx cam') \<and>
      n_textures cam' = n_textures cam \<and>
      path_to_texture cam' = path_to_texture cam \<and>
      (\<forall>sid entry. id_to_shader_program cam sid = Some entry \<longrightarrow>
                   id_to_shader_program cam' sid = Some entry))"

text \<open>The objects a render group owns: what \<^verbatim>\<open>release_render_group\<close> releases.\<close>

definition group_handles :: "render_group \<Rightarrow> nat set" where
  "group_handles g = {vbo g, vao g} \<union> set_option (ibo g)"

section \<open>Concrete inputs\<close>

text \<open>
  A frame with the five control points of \<^verbatim>\<open>init_points\<close> before stretching and the
  default angles, a context that has handed out nothing, a driver for which every source
  compiles to a program with the members \<^verbatim>\<open>color\<close> and \<^verbatim>\<open>frame_shape\<close> and every image
  opens, and a drawable with one shader unit.
\<close>

definition example_frame :: camera_frame where
  "example_frame =
     \<lparr>points = [(0, 0, 0), (- 1, 0, 0), (1, 0, 0), (0, - 1, 0), (0, 1, 0)],
      euler_angles = (0, 0, 0),
      inverse_camera_rotation_matrix = ((1, 0, 0), (0, 1, 0), (0, 0, 1)),
      focal_distance = 2\<rparr>"

definition example_context :: gl_context where
  "example_context =
     \<lparr>next_glo = 0, alive = {}, programs = Map.empty, texture_units = Map.empty\<rparr>"

definition example_driver :: driver where
  "example_driver =
     \<lparr>compile = (\<lambda>code. Some [''color'', ''frame_shape'']),
      detect_format = (\<lambda>code attrs. ''3f''),
      image_ok = (\<lambda>path. True)\<rparr>"

definition example_unit :: shader_wrapper where
  "example_unit =
     \<lparr>vert_data = [0, 0, 0], vert_indices = None, vert_attributes = [''point''],
      uniforms = [(''color'', NdArray [1, 0, 0]), (''gloss'', Num 1)],
      texture_paths = [], depth_test = False, render_primitive = 4,
      program_id = ''quadratic_bezier_fill'', program_code = [(''vertex_shader'', ''void main() {}'')]\<rparr>"

definition example_mobject :: mobject where
  "example_mobject = \<lparr>mob_id = 7, shader_wrapper_list = [example_unit]\<rparr>"

definition example_camera :: camera where
  "example_camera = init_camera example_frame example_context [(''frame_shape'', Tuple [2, 2])]"

section \<open>Properties of the frame\<close>

lemma euler_angles_refresh [simp]:
  "euler_angles (refresh_rotation_matrix f) = euler_angles f"
  by (simp add: refresh_rotation_matrix_def)

lemma points_refresh [simp]:
  "points (refresh_rotation_matrix f) = points f"
  by (simp add: refresh_rotation_matrix_def)

lemma matrix_refresh [simp]:
  "inverse_camera_rotation_matrix (refresh_rotation_matrix f) =
     euler_rotation_matrix (euler_angles f)"
  by (simp add: refresh_rotation_matrix_def get_euler_angles_def)

lemma euler_angles_set_euler_angles:
  "euler_angles (set_euler_angles t p g u f) = merge_angles (t, p, g, u) (euler_angles f)"
  by (cases "euler_angles f")
     (simp add: set_euler_angles_def merge_angles_def theta_of_def phi_of_def gamma_of_def
           split: option.splits)

lemma points_set_euler_angles [simp]:
  "points (set_euler_angles t p g u f) = points f"
  by (simp add: set_euler_angles_def Let_def split: option.splits)

lemma matrix_set_euler_angles:
  "inverse_camera_rotation_matrix (set_euler_angles t p g u f) =
     euler_rotation_matrix (euler_angles (set_euler_angles t p g u f))"
  by (simp add: set_euler_angles_def Let_def)

lemma clip_bounds: "lo \<le> hi \<Longrightarrow> lo \<le> clip a lo hi \<and> clip a lo hi \<le> hi"
  by (simp add: clip_def)

lemma phi_of_set_euler_angles:
  "phi_of (set_euler_angles t p g u f) = (case p of None \<Rightarrow> phi_of f | Some x \<Rightarrow> x * u)"
  by (cases "euler_angles f")
     (simp add: euler_angles_set_euler_angles merge_angles_def phi_of_def split: option.splits)

lemma theta_of_set_euler_angles:
  "theta_of (set_euler_angles t p g u f) = (case t of None \<Rightarrow> theta_of f | Some x \<Rightarrow> x * u)"
  by (cases "euler_angles f")
     (simp add: euler_angles_set_euler_angles merge_angles_def theta_of_def split: option.splits)

lemma gamma_of_set_euler_angles:
  "gamma_of (set_euler_angles t p g u f) = (case g of None \<Rightarrow> gamma_of f | Some x \<Rightarrow> x * u)"
  by (cases "euler_angles f")
     (simp add: euler_angles_set_euler_angles merge_angles_def gamma_of_def split: option.splits)

lemma phi_of_increment_phi: "phi_of (increment_phi d f) = clip (phi_of f + d) 0 pi"
  by (simp add: increment_phi_def phi_of_def PI_def Let_def)

lemma phi_in_range_increment_phi: "phi_in_range (increment_phi d f)"
  using clip_bounds [of 0 pi "phi_of f + d"]
  by (simp add: phi_in_range_def phi_of_increment_phi)

lemma phi_of_rotate:
  "phi_of (rotate_frame a ax f) =
     arccos (clip (snd (snd (row2 (np_dot (inverse_camera_rotation_matrix f)
                                          (rotation_matrix_transpose a ax))))) (- 1) 1)"
  by (simp add: rotate_frame_def Let_def phi_of_set_euler_angles RADIANS_def
        get_inverse_camera_rotation_matrix_def)


lemma phi_of_increment_theta [simp]: "phi_of (increment_theta d f) = phi_of f"
  by (simp add: increment_theta_def phi_of_def)

lemma phi_of_increment_gamma [simp]: "phi_of (increment_gamma d f) = phi_of f"
  by (simp add: increment_gamma_def phi_of_def)



lemma set_euler_angles_eq:
  "set_euler_angles t p g u f =
     f\<lparr>euler_angles := merge_angles (t, p, g, u) (euler_angles f),
       inverse_camera_rotation_matrix :=
         euler_rotation_matrix (merge_angles (t, p, g, u) (euler_angles f))\<rparr>"
proof (rule camera_frame.equality)
  show "euler_angles (set_euler_angles t p g u f) =
      euler_angles (f\<lparr>euler_angles := merge_angles (t, p, g, u) (euler_angles f),
       inverse_camera_rotation_matrix :=
         euler_rotation_matrix (merge_angles (t, p, g, u) (euler_angles f))\<rparr>)"
    by (simp add: euler_angles_set_euler_angles)
  show "inverse_camera_rotation_matrix (set_euler_angles t p g u f) =
      inverse_camera_rotation_matrix (f\<lparr>euler_angles := merge_angles (t, p, g, u) (euler_angles f),
       inverse_camera_rotation_matrix :=
         euler_rotation_matrix (merge_angles (t, p, g, u) (euler_angles f))\<rparr>)"
    by (simp add: matrix_set_euler_angles euler_angles_set_euler_angles)
qed (simp_all add: set_euler_angles_def Let_def refresh_rotation_matrix_def split: option.splits)

text \<open>
  Claim C9: \<^verbatim>\<open>rotate(angle, axis)\<close> leaves the control points of the frame unchanged, so
  \<^verbatim>\<open>get_width()\<close> and \<^verbatim>\<open>get_height()\<close> return the same before and after; only the Euler
  triple and the inverse rotation matrix are written.
\<close>

theorem rotate_keeps_width_and_height:
  "points (rotate_frame angle axis f) = points f \<and>
   get_width (rotate_frame angle axis f) = get_width f \<and>
   get_height (rotate_frame angle axis f) = get_height f \<and>
   (\<exists>e m. rotate_frame angle axis f = f\<lparr>euler_angles := e, inverse_camera_rotation_matrix := m\<rparr>)"
proof -
  have p: "points (rotate_frame angle axis f) = points f"
    by (simp add: rotate_frame_def Let_def)
  have "\<exists>e m. rotate_frame angle axis f = f\<lparr>euler_angles := e, inverse_camera_rotation_matrix := m\<rparr>"
    unfolding rotate_frame_def Let_def set_euler_angles_eq by blast
  with p show ?thesis
    by (simp add: get_width_def get_height_def)
qed

lemma increment_phi_up:
  "phi_in_range f \<Longrightarrow> \<forall>d\<in>set ds. 0 \<le> d \<Longrightarrow> pi \<le> phi_of f + sum_list ds \<Longrightarrow>
     phi_of (foldl (\<lambda>f d. increment_phi d f) f ds) = pi"
proof (induction ds arbitrary: f)
  case Nil
  then show ?case by (simp add: phi_in_range_def)
next
  case (Cons d ds)
  have "0 \<le> sum_list ds" using Cons.prems(2) by (simp add: sum_list_nonneg)
  then have "pi \<le> phi_of (increment_phi d f) + sum_list ds"
    using Cons.prems(1,3) by (simp add: phi_of_increment_phi clip_def phi_in_range_def)
  with Cons.IH [of "increment_phi d f"] Cons.prems(2) show ?case
    by (simp add: phi_in_range_increment_phi)
qed

lemma increment_phi_down:
  "phi_in_range f \<Longrightarrow> \<forall>d\<in>set ds. d \<le> 0 \<Longrightarrow> phi_of f + sum_list ds \<le> 0 \<Longrightarrow>
     phi_of (foldl (\<lambda>f d. increment_phi d f) f ds) = 0"
proof (induction ds arbitrary: f)
  case Nil
  then show ?case by (simp add: phi_in_range_def)
next
  case (Cons d ds)
  have "sum_list ds \<le> 0" using Cons.prems(2) by (simp add: sum_list_nonpos)
  then have "phi_of (increment_phi d f) + sum_list ds \<le> 0"
    using Cons.prems(1,3) by (simp add: phi_of_increment_phi clip_def phi_in_range_def)
  with Cons.IH [of "increment_phi d f"] Cons.prems(2) show ?case
    by (simp add: phi_in_range_increment_phi)
qed


lemma increment_phi_first_up:
  "0 \<le> sum_list ds \<Longrightarrow> pi \<le> phi_of f + d + sum_list ds \<Longrightarrow>
     pi \<le> phi_of (increment_phi d f) + sum_list ds"
  by (simp add: phi_of_increment_phi clip_def)

lemma increment_phi_first_down:
  "sum_list ds \<le> 0 \<Longrightarrow> phi_of f + d + sum_list ds \<le> 0 \<Longrightarrow>
     phi_of (increment_phi d f) + sum_list ds \<le> 0"
  using pi_gt_zero by (simp add: phi_of_increment_phi clip_def)

text \<open>
  Claim C5 as stated fails for increments of mixed sign: from phi = 0 the increments 10
  and \<open>-1\<close> have the cumulative sum 9, which is past \<open>pi\<close>, yet the first leaves phi at
  \<open>pi\<close> and the second moves it to \<open>pi - 1\<close>.
\<close>

theorem mixed_increments_leave_the_bound:
  "pi \<le> phi_of example_frame + sum_list [10, - 1] \<and>
   phi_of (foldl (\<lambda>f x. increment_phi x f) example_frame [10, - 1]) = pi - 1 \<and>
   phi_of (foldl (\<lambda>f x. increment_phi x f) example_frame [10, - 1]) \<noteq> pi"
proof -
  have p: "phi_of example_frame = 0"
    by (simp add: example_frame_def phi_of_def)
  have b: "pi < 10" "1 \<le> pi" "pi \<le> 9" using pi_less_4 pi_ge_two by linarith+
  have "phi_of (increment_phi 10 example_frame) = pi"
    using b by (simp add: phi_of_increment_phi p clip_def)
  then have "phi_of (increment_phi (- 1) (increment_phi 10 example_frame)) = pi - 1"
    using b by (simp add: phi_of_increment_phi clip_def)
  with p b show ?thesis by simp
qed

text \<open>
  Claim C5, amended: \<^verbatim>\<open>increment_phi(d)\<close> sets phi to \<open>clip (phi + d) 0 pi\<close>, which is in
  \<open>[0, pi]\<close>, and the clamp saturates: after a run of increments all in one direction whose
  sum carries phi to or past the bound in that direction, phi is exactly that bound (\<open>pi\<close>
  going up, \<open>0\<close> going down), whatever phi was before.
\<close>

theorem increment_phi_saturating:
  "phi_of (increment_phi d f) = clip (phi_of f + d) 0 pi \<and>
   phi_in_range (increment_phi d f) \<and>
   ((\<forall>x\<in>set (d # ds). 0 \<le> x) \<and> pi \<le> phi_of f + sum_list (d # ds)
      \<longrightarrow> phi_of (foldl (\<lambda>f x. increment_phi x f) f (d # ds)) = pi) \<and>
   ((\<forall>x\<in>set (d # ds). x \<le> 0) \<and> phi_of f + sum_list (d # ds) \<le> 0
      \<longrightarrow> phi_of (foldl (\<lambda>f x. increment_phi x f) f (d # ds)) = 0)"
proof (intro conjI impI)
  show "phi_of (increment_phi d f) = clip (phi_of f + d) 0 pi"
    by (rule phi_of_increment_phi)
next
  show "phi_in_range (increment_phi d f)"
    by (rule phi_in_range_increment_phi)
next
  assume a: "(\<forall>x\<in>set (d # ds). 0 \<le> x) \<and> pi \<le> phi_of f + sum_list (d # ds)"
  then have "0 \<le> sum_list ds" by (simp add: sum_list_nonneg)
  with a have "pi \<le> phi_of (increment_phi d f) + sum_list ds"
    by (simp add: increment_phi_first_up add.assoc)
  with a increment_phi_up [of "increment_phi d f" ds]
  show "phi_of (foldl (\<lambda>f x. increment_phi x f) f (d # ds)) = pi"
    by (simp add: phi_in_range_increment_phi)
next
  assume a: "(\<forall>x\<in>set (d # ds). x \<le> 0) \<and> phi_of f + sum_list (d # ds) \<le> 0"
  then have "sum_list ds \<le> 0" by (simp add: sum_list_nonpos)
  with a have "phi_of (increment_phi d f) + sum_list ds \<le> 0"
    by (simp add: increment_phi_first_down add.assoc)
  with a increment_phi_down [of "increment_phi d f" ds]
  show "phi_of (foldl (\<lambda>f x. increment_phi x f) f (d # ds)) = 0"
    by (simp add: phi_in_range_increment_phi)
qed

theorem increment_phi_saturating_witness:
  "list_all (\<lambda>x. 0 \<le> x) [3, 1, 2 :: real] \<and>
   pi \<le> phi_of example_frame + sum_list [3, 1, 2] \<and>
   phi_of (foldl (\<lambda>f x. increment_phi x f) example_frame [3, 1, 2]) = pi \<and>
   list_all (\<lambda>x. x \<le> 0) [- 1, - 2 :: real] \<and>
   phi_of example_frame + sum_list [- 1, - 2] \<le> 0 \<and>
   phi_of (foldl (\<lambda>f x. increment_phi x f) example_frame [- 1, - 2]) = 0"
proof -
  have p: "phi_of example_frame = 0"
    by (simp add: example_frame_def phi_of_def)
  have "pi \<le> 6" using pi_less_4 by linarith
  then have a: "(\<forall>x\<in>set [3, 1, 2 :: real]. 0 \<le> x) \<and> pi \<le> phi_of example_frame + sum_list [3, 1, 2]"
    by (simp add: p)
  have b: "(\<forall>x\<in>set [- 1, - 2 :: real]. x \<le> 0) \<and> phi_of example_frame + sum_list [- 1, - 2] \<le> 0"
    by (simp add: p)
  from a increment_phi_saturating [of 3 example_frame "[1, 2]"]
  have u: "phi_of (foldl (\<lambda>f x. increment_phi x f) example_frame [3, 1, 2]) = pi"
    by blast
  from b increment_phi_saturating [of "- 1" example_frame "[- 2]"]
  have d: "phi_of (foldl (\<lambda>f x. increment_phi x f) example_frame [- 1, - 2]) = 0"
    by blast
  from a b u d show ?thesis
    by (simp only: list_all_iff) blast
qed

lemma do_call_eq: "do_call f (t, p, g, u) = set_euler_angles t p g u f"
  by (simp add: do_call_def)

text \<open>
  Claim C4: a \<^verbatim>\<open>set_euler_angles\<close> call changes exactly the angles it supplies and keeps
  the others, and after every call of any sequence of such calls the stored inverse
  rotation matrix is the one computed from the stored triple by composing the quaternions
  for theta about OUT, phi about RIGHT and gamma about OUT.
\<close>

theorem partial_set_euler_angles:
  "theta_of (set_euler_angles t p g u f) = (case t of None \<Rightarrow> theta_of f | Some x \<Rightarrow> x * u) \<and>
   phi_of (set_euler_angles t p g u f) = (case p of None \<Rightarrow> phi_of f | Some x \<Rightarrow> x * u) \<and>
   gamma_of (set_euler_angles t p g u f) = (case g of None \<Rightarrow> gamma_of f | Some x \<Rightarrow> x * u) \<and>
   euler_angles (foldl do_call f (cs @ [c])) = merge_angles c (euler_angles (foldl do_call f cs)) \<and>
   inverse_camera_rotation_matrix (foldl do_call f (cs @ [c])) =
     (case euler_angles (foldl do_call f (cs @ [c])) of (theta, phi, gamma) \<Rightarrow>
        rotation_matrix_transpose_from_quaternion
          (quaternion_mult
             [quaternion_from_angle_axis theta OUT True,
              quaternion_from_angle_axis phi RIGHT True,
              quaternion_from_angle_axis gamma OUT True]))"
proof -
  obtain t' p' g' u' where c: "c = (t', p', g', u')" by (cases c) auto
  have "inverse_camera_rotation_matrix (foldl do_call f (cs @ [c])) =
      euler_rotation_matrix (euler_angles (foldl do_call f (cs @ [c])))"
    by (simp add: c do_call_eq matrix_set_euler_angles)
  moreover have "euler_angles (foldl do_call f (cs @ [c])) =
      merge_angles c (euler_angles (foldl do_call f cs))"
    by (simp add: c do_call_eq euler_angles_set_euler_angles)
  ultimately show ?thesis
    by (simp add: euler_rotation_matrix_def phi_of_set_euler_angles
          theta_of_set_euler_angles gamma_of_set_euler_angles)
qed

section \<open>Properties of the caches\<close>

lemma get_shader_program_hit:
  "id_to_shader_program cam (program_id sw) = Some entry \<Longrightarrow>
     get_shader_program drv sw cam = (Inr entry, cam)"
  by (simp add: get_shader_program_def)

lemma get_shader_program_fail:
  "id_to_shader_program cam (program_id sw) = None \<Longrightarrow> compile drv (program_code sw) = None \<Longrightarrow>
     get_shader_program drv sw cam = (Inl ShaderCompileError, cam)"
  by (simp add: get_shader_program_def)

lemma get_shader_program_miss:
  "id_to_shader_program cam (program_id sw) = None \<Longrightarrow> compile drv (program_code sw) = Some ms \<Longrightarrow>
     get_shader_program drv sw cam =
       (Inr (Some (next_glo (ctx cam), detect_format drv (program_code sw) (vert_attributes sw))),
        cam\<lparr>ctx := (ctx cam)\<lparr>next_glo := Suc (next_glo (ctx cam)),
                 programs := (programs (ctx cam))(next_glo (ctx cam) \<mapsto>
                                \<lparr>members = ms, uniform_values = Map.empty\<rparr>)\<rparr>,
            id_to_shader_program :=
              (id_to_shader_program cam)(program_id sw \<mapsto>
                 Some (next_glo (ctx cam), detect_format drv (program_code sw) (vert_attributes sw)))\<rparr>)"
  by (simp add: get_shader_program_def new_program_def Let_def)

lemmas get_shader_program_cases =
  get_shader_program_hit get_shader_program_fail get_shader_program_miss

lemma get_shader_program_fields:
  "alive (ctx (snd (get_shader_program drv sw cam))) = alive (ctx cam) \<and>
   next_glo (ctx cam) \<le> next_glo (ctx (snd (get_shader_program drv sw cam))) \<and>
   n_textures (snd (get_shader_program drv sw cam)) = n_textures cam \<and>
   path_to_texture (snd (get_shader_program drv sw cam)) = path_to_texture cam \<and>
   static_mobject_to_render_group_list (snd (get_shader_program drv sw cam)) =
     static_mobject_to_render_group_list cam"
  by (cases "id_to_shader_program cam (program_id sw)"; cases "compile drv (program_code sw)")
     (simp_all add: get_shader_program_cases)

lemma get_shader_program_keeps_entry:
  "id_to_shader_program cam sid = Some entry \<Longrightarrow>
     id_to_shader_program (snd (get_shader_program drv sw cam)) sid = Some entry"
  by (cases "id_to_shader_program cam (program_id sw)"; cases "compile drv (program_code sw)")
     (auto simp add: get_shader_program_cases)

lemma get_shader_program_caches:
  "get_shader_program drv sw cam = (Inr r, cam1) \<Longrightarrow>
     id_to_shader_program cam1 (program_id sw) = Some r"
  by (cases "id_to_shader_program cam (program_id sw)"; cases "compile drv (program_code sw)")
     (auto simp add: get_shader_program_cases)

text \<open>
  Claim C6: when two shader units have the same program id (whatever their uniforms), and
  the first request for a program succeeds, the second request returns the same program
  and vertex format from the cache and leaves the camera and its context unchanged, so
  nothing is compiled again; the first request, when the id was not cached, creates exactly
  one program object.
\<close>

theorem shader_program_compiled_once:
  "program_id sw1 = program_id sw2 \<Longrightarrow> get_shader_program drv sw1 cam = (Inr r, cam1) \<Longrightarrow>
     get_shader_program drv sw2 cam1 = (Inr r, cam1) \<and>
     id_to_shader_program cam1 (program_id sw2) = Some r \<and>
     (id_to_shader_program cam (program_id sw1) = None \<longrightarrow>
        r = Some (next_glo (ctx cam), detect_format drv (program_code sw1) (vert_attributes sw1)) \<and>
        programs (ctx cam1) (next_glo (ctx cam)) =
          map_option (\<lambda>ms. \<lparr>members = ms, uniform_values = Map.empty\<rparr>)
            (compile drv (program_code sw1)) \<and>
        next_glo (ctx cam1) = Suc (next_glo (ctx cam)))"
proof -
  assume eq: "program_id sw1 = program_id sw2"
    and first: "get_shader_program drv sw1 cam = (Inr r, cam1)"
  from first have "id_to_shader_program cam1 (program_id sw1) = Some r"
    by (rule get_shader_program_caches)
  with eq have cached: "id_to_shader_program cam1 (program_id sw2) = Some r" by simp
  then have "get_shader_program drv sw2 cam1 = (Inr r, cam1)"
    by (rule get_shader_program_hit)
  moreover from first have "id_to_shader_program cam (program_id sw1) = None \<longrightarrow>
        r = Some (next_glo (ctx cam), detect_format drv (program_code sw1) (vert_attributes sw1)) \<and>
        programs (ctx cam1) (next_glo (ctx cam)) =
          map_option (\<lambda>ms. \<lparr>members = ms, uniform_values = Map.empty\<rparr>)
            (compile drv (program_code sw1)) \<and>
        next_glo (ctx cam1) = Suc (next_glo (ctx cam))"
    by (cases "compile drv (program_code sw1)") (auto simp add: get_shader_program_cases)
  ultimately show ?thesis using cached by simp
qed

lemma example_camera_fields:
  "id_to_shader_program example_camera = ['''' \<mapsto> None] \<and>
   ctx example_camera = example_context \<and>
   n_textures example_camera = 0 \<and>
   path_to_texture example_camera = Map.empty \<and>
   static_mobject_to_render_group_list example_camera = [] \<and>
   perspective_uniforms example_camera = [(''frame_shape'', Tuple [2, 2])]"
  by (simp add: example_camera_def init_camera_def init_shaders_def init_textures_def)

theorem shader_program_compiled_once_witness:
  "program_id example_unit = program_id (example_unit\<lparr>uniforms := []\<rparr>) \<and>
   get_shader_program example_driver example_unit example_camera =
     (Inr (Some (0, ''3f'')), snd (get_shader_program example_driver example_unit example_camera)) \<and>
   get_shader_program example_driver (example_unit\<lparr>uniforms := []\<rparr>)
       (snd (get_shader_program example_driver example_unit example_camera)) =
     (Inr (Some (0, ''3f'')), snd (get_shader_program example_driver example_unit example_camera))"
proof -
  have a: "program_id example_unit = program_id (example_unit\<lparr>uniforms := []\<rparr>)"
    by simp
  have m: "id_to_shader_program example_camera (program_id example_unit) = None"
    by (simp add: example_camera_fields example_unit_def)
  have c: "compile example_driver (program_code example_unit) = Some [''color'', ''frame_shape'']"
    by (simp add: example_driver_def)
  define cam1 where "cam1 = snd (get_shader_program example_driver example_unit example_camera)"
  have "fst (get_shader_program example_driver example_unit example_camera) = Inr (Some (0, ''3f''))"
    unfolding get_shader_program_miss [OF m c]
    by (simp add: example_camera_fields example_context_def example_driver_def)
  then have b: "get_shader_program example_driver example_unit example_camera =
     (Inr (Some (0, ''3f'')), cam1)"
    by (simp add: cam1_def prod_eq_iff)
  have t: "get_shader_program example_driver (example_unit\<lparr>uniforms := []\<rparr>) cam1 =
     (Inr (Some (0, ''3f'')), cam1)"
    using shader_program_compiled_once [OF a b] by blast
  show ?thesis using a b t unfolding cam1_def by blast
qed

lemma get_texture_id_hit:
  "path_to_texture cam path = Some entry \<Longrightarrow> get_texture_id drv path cam = (Inr (fst entry), cam)"
  by (simp add: get_texture_id_def)

lemma get_texture_id_fail:
  "path_to_texture cam path = None \<Longrightarrow> \<not> image_ok drv path \<Longrightarrow>
     get_texture_id drv path cam = (Inl ImageLoadError, cam\<lparr>n_textures := n_textures cam + 1\<rparr>)"
  by (simp add: get_texture_id_def)

lemma get_texture_id_miss:
  "path_to_texture cam path = None \<Longrightarrow> image_ok drv path \<Longrightarrow>
     get_texture_id drv path cam =
       (Inr (n_textures cam),
        cam\<lparr>n_textures := n_textures cam + 1,
            ctx := (ctx cam)\<lparr>next_glo := Suc (next_glo (ctx cam)),
                     alive := insert (next_glo (ctx cam)) (alive (ctx cam)),
                     texture_units := (texture_units (ctx cam))(n_textures cam \<mapsto> next_glo (ctx cam))\<rparr>,
            path_to_texture := (path_to_texture cam)(path \<mapsto> (n_textures cam, next_glo (ctx cam)))\<rparr>)"
  by (simp add: get_texture_id_def new_object_def Let_def)

lemmas get_texture_id_cases = get_texture_id_hit get_texture_id_fail get_texture_id_miss

lemma camera_inv_get_texture_id:
  "camera_inv cam \<Longrightarrow> camera_inv (snd (get_texture_id drv path cam))"
  by (cases "path_to_texture cam path"; cases "image_ok drv path")
     (auto simp add: get_texture_id_cases camera_inv_def less_Suc_eq)

lemma camera_inv_release_texture:
  "camera_inv cam \<Longrightarrow> camera_inv (release_texture path cam)"
  by (cases "path_to_texture cam path") (auto simp add: release_texture_def camera_inv_def)

lemma camera_inv_ctx [simp]: "camera_inv (cam\<lparr>ctx := c\<rparr>) = camera_inv cam"
  by (simp add: camera_inv_def)

lemma camera_inv_get_shader_program:
  "camera_inv cam \<Longrightarrow> camera_inv (snd (get_shader_program drv sw cam))"
  by (simp add: camera_inv_def get_shader_program_fields get_shader_program_keeps_entry)

lemma get_render_group_shape:
  "get_render_group drv sw su cam =
    (let c1 = snd (new_object (ctx cam));
         ib = (case vert_indices sw of None \<Rightarrow> None
               | Some inds \<Rightarrow> if inds \<noteq> [] then Some (next_glo c1) else None);
         c2 = (case ib of None \<Rightarrow> c1 | Some h \<Rightarrow> snd (new_object c1));
         p = get_shader_program drv sw (cam\<lparr>ctx := c2\<rparr>)
     in case fst p of
          Inl e \<Rightarrow> (Inl e, snd p)
        | Inr None \<Rightarrow> (Inl TypeError, snd p)
        | Inr (Some e) \<Rightarrow>
            (Inr \<lparr>vbo = next_glo (ctx cam), ibo = ib, vao = next_glo (ctx (snd p)),
                  prog = fst e, rg_shader_wrapper = sw, single_use = su\<rparr>,
             (snd p)\<lparr>ctx := snd (new_object (ctx (snd p)))\<rparr>))"
  by (simp add: get_render_group_def Let_def split_def new_object_def
        split: option.splits sum.splits)


lemma grows_refl [simp]: "grows cam cam"
  by (simp add: grows_def)

lemma grows_trans: "grows a b \<Longrightarrow> grows b c \<Longrightarrow> grows a c"
  by (auto simp add: grows_def)

lemma grows_get_shader_program: "grows cam (snd (get_shader_program drv sw cam))"
  by (simp add: grows_def get_shader_program_fields get_shader_program_keeps_entry)

lemma static_get_shader_program [simp]:
  "static_mobject_to_render_group_list (snd (get_shader_program drv sw cam)) =
     static_mobject_to_render_group_list cam"
  by (simp add: get_shader_program_fields)

lemma get_render_group_grows:
  "grows cam (snd (get_render_group drv sw su cam)) \<and>
   static_mobject_to_render_group_list (snd (get_render_group drv sw su cam)) =
     static_mobject_to_render_group_list cam"
proof -
  define c1 where "c1 = snd (new_object (ctx cam))"
  define ib where "ib = (case vert_indices sw of None \<Rightarrow> None
               | Some inds \<Rightarrow> if inds \<noteq> [] then Some (next_glo c1) else None)"
  define c2 where "c2 = (case ib of None \<Rightarrow> c1 | Some h \<Rightarrow> snd (new_object c1))"
  define p where "p = get_shader_program drv sw (cam\<lparr>ctx := c2\<rparr>)"
  have g1: "grows cam (cam\<lparr>ctx := c2\<rparr>)"
    by (cases ib) (auto simp add: grows_def c2_def c1_def new_object_def)
  have g2: "grows (cam\<lparr>ctx := c2\<rparr>) (snd p)"
    unfolding p_def by (rule grows_get_shader_program)
  have g3: "grows (snd p) ((snd p)\<lparr>ctx := snd (new_object (ctx (snd p)))\<rparr>)"
    by (auto simp add: grows_def new_object_def)
  have s: "static_mobject_to_render_group_list (snd p) = static_mobject_to_render_group_list cam"
    by (simp add: p_def)
  have "get_render_group drv sw su cam =
      (case fst p of
          Inl e \<Rightarrow> (Inl e, snd p)
        | Inr None \<Rightarrow> (Inl TypeError, snd p)
        | Inr (Some e) \<Rightarrow>
            (Inr \<lparr>vbo = next_glo (ctx cam), ibo = ib, vao = next_glo (ctx (snd p)),
                  prog = fst e, rg_shader_wrapper = sw, single_use = su\<rparr>,
             (snd p)\<lparr>ctx := snd (new_object (ctx (snd p)))\<rparr>))"
    by (simp only: get_render_group_shape Let_def c1_def ib_def c2_def p_def)
  then show ?thesis
    using grows_trans [OF g1 g2] grows_trans [OF grows_trans [OF g1 g2] g3] s
    by (auto split: sum.splits option.splits)
qed

lemma get_render_group_ok:
  assumes "get_render_group drv sw su cam = (Inr g, cam')"
  shows "group_handles g \<subseteq> alive (ctx cam') \<and>
         group_handles g \<subseteq> {next_glo (ctx cam)..<next_glo (ctx cam')} \<and>
         single_use g = su \<and> rg_shader_wrapper g = sw"
proof -
  define c1 where "c1 = snd (new_object (ctx cam))"
  define ib where "ib = (case vert_indices sw of None \<Rightarrow> None
               | Some inds \<Rightarrow> if inds \<noteq> [] then Some (next_glo c1) else None)"
  define c2 where "c2 = (case ib of None \<Rightarrow> c1 | Some h \<Rightarrow> snd (new_object c1))"
  define p where "p = get_shader_program drv sw (cam\<lparr>ctx := c2\<rparr>)"
  have a2: "insert (next_glo (ctx cam)) (set_option ib) \<subseteq> alive c2 \<and>
      (\<forall>h\<in>set_option ib. next_glo (ctx cam) < h \<and> h < next_glo c2) \<and>
      next_glo (ctx cam) < next_glo c2"
    by (cases ib) (auto simp add: c2_def c1_def ib_def new_object_def split: option.splits if_splits)
  have a3: "alive (ctx (snd p)) = alive c2 \<and> next_glo c2 \<le> next_glo (ctx (snd p))"
    using get_shader_program_fields [of drv sw "cam\<lparr>ctx := c2\<rparr>"] by (simp add: p_def)
  have "get_render_group drv sw su cam =
      (case fst p of
          Inl e \<Rightarrow> (Inl e, snd p)
        | Inr None \<Rightarrow> (Inl TypeError, snd p)
        | Inr (Some e) \<Rightarrow>
            (Inr \<lparr>vbo = next_glo (ctx cam), ibo = ib, vao = next_glo (ctx (snd p)),
                  prog = fst e, rg_shader_wrapper = sw, single_use = su\<rparr>,
             (snd p)\<lparr>ctx := snd (new_object (ctx (snd p)))\<rparr>))"
    by (simp only: get_render_group_shape Let_def c1_def ib_def c2_def p_def)
  with assms obtain e :: "nat \<times> string" where
    g: "g = \<lparr>vbo = next_glo (ctx cam), ibo = ib, vao = next_glo (ctx (snd p)),
                  prog = fst e, rg_shader_wrapper = sw, single_use = su\<rparr>"
    and c: "cam' = (snd p)\<lparr>ctx := snd (new_object (ctx (snd p)))\<rparr>"
    by (auto split: sum.splits option.splits)
  from a2 a3 show ?thesis
    by (auto simp add: g c group_handles_def new_object_def)
qed

lemma build_groups_grows:
  "grows cam (snd (build_groups drv sws cam)) \<and>
   static_mobject_to_render_group_list (snd (build_groups drv sws cam)) =
     static_mobject_to_render_group_list cam"
proof (induction sws arbitrary: cam)
  case Nil
  then show ?case by simp
next
  case (Cons sw sws)
  obtain r cam1 where a: "get_render_group drv sw False cam = (r, cam1)" by fastforce
  with get_render_group_grows [of cam drv sw False]
  have g1: "grows cam cam1"
    and s1: "static_mobject_to_render_group_list cam1 = static_mobject_to_render_group_list cam"
    by simp_all
  show ?case
  proof (cases r)
    case (Inl e)
    with a g1 s1 show ?thesis by simp
  next
    case (Inr g)
    obtain r2 cam2 where b: "build_groups drv sws cam1 = (r2, cam2)" by fastforce
    with Cons.IH [of cam1] have "grows cam1 cam2"
      and "static_mobject_to_render_group_list cam2 = static_mobject_to_render_group_list cam1"
      by simp_all
    with g1 s1 have "grows cam cam2"
      and "static_mobject_to_render_group_list cam2 = static_mobject_to_render_group_list cam"
      by (auto intro: grows_trans)
    with a b Inr show ?thesis by (cases r2) simp_all
  qed
qed

lemma build_groups_ok:
  "build_groups drv sws cam = (Inr gs, cam') \<Longrightarrow>
     length gs = length sws \<and>
     (\<forall>g\<in>set gs. group_handles g \<subseteq> alive (ctx cam') \<and>
                  group_handles g \<subseteq> {next_glo (ctx cam)..<next_glo (ctx cam')} \<and>
                  \<not> single_use g)"
proof (induction sws arbitrary: cam gs)
  case Nil
  then show ?case by simp
next
  case (Cons sw sws)
  from Cons.prems obtain g cam1 gs' where
    a: "get_render_group drv sw False cam = (Inr g, cam1)"
    and b: "build_groups drv sws cam1 = (Inr gs', cam')"
    and gs: "gs = g # gs'"
    by (auto split: prod.splits sum.splits)
  from get_render_group_ok [OF a] have g: "group_handles g \<subseteq> alive (ctx cam1)"
    "group_handles g \<subseteq> {next_glo (ctx cam)..<next_glo (ctx cam1)}" "\<not> single_use g"
    by simp_all
  from get_render_group_grows [of cam drv sw False] a have g1: "grows cam cam1" by simp
  from build_groups_grows [of cam1 drv sws] b have g2: "grows cam1 cam'" by simp
  from Cons.IH [OF b] have ih: "length gs' = length sws"
    "\<forall>g\<in>set gs'. group_handles g \<subseteq> alive (ctx cam') \<and>
        group_handles g \<subseteq> {next_glo (ctx cam1)..<next_glo (ctx cam')} \<and> \<not> single_use g"
    by simp_all
  from g g1 g2 ih show ?case
    unfolding gs grows_def
    by (simp add: subset_iff) (meson le_trans less_le_trans)
qed


lemma grows_static_update [simp]:
  "grows cam (cam'\<lparr>static_mobject_to_render_group_list := x\<rparr>) = grows cam cam'"
  by (simp add: grows_def)

lemma set_mobjects_as_static_grows:
  "grows cam (snd (set_mobjects_as_static drv mobs cam)) \<and>
   (distinct (map fst (static_mobject_to_render_group_list cam)) \<longrightarrow>
    distinct (map fst (static_mobject_to_render_group_list
                         (snd (set_mobjects_as_static drv mobs cam)))))"
proof (induction mobs arbitrary: cam)
  case Nil
  then show ?case by simp
next
  case (Cons mob mobs)
  obtain r cam1 where a: "build_groups drv (shader_wrapper_list mob) cam = (r, cam1)"
    by fastforce
  with build_groups_grows [of cam drv "shader_wrapper_list mob"]
  have g1: "grows cam cam1"
    and s1: "static_mobject_to_render_group_list cam1 = static_mobject_to_render_group_list cam"
    by simp_all
  show ?case
  proof (cases r)
    case (Inl e)
    with a g1 s1 show ?thesis by simp
  next
    case (Inr gs)
    define cam2 where "cam2 = cam1\<lparr>static_mobject_to_render_group_list :=
        AList.update (mob_id mob) gs (static_mobject_to_render_group_list cam1)\<rparr>"
    have g2: "grows cam cam2" using g1 by (simp add: cam2_def)
    have d2: "distinct (map fst (static_mobject_to_render_group_list cam)) \<longrightarrow>
        distinct (map fst (static_mobject_to_render_group_list cam2))"
      by (simp add: cam2_def s1 distinct_update)
    from Cons.IH [of cam2] have ih: "grows cam2 (snd (set_mobjects_as_static drv mobs cam2))"
      "distinct (map fst (static_mobject_to_render_group_list cam2)) \<longrightarrow>
       distinct (map fst (static_mobject_to_render_group_list
                            (snd (set_mobjects_as_static drv mobs cam2))))"
      by simp_all
    have eq: "set_mobjects_as_static drv (mob # mobs) cam = set_mobjects_as_static drv mobs cam2"
      using a Inr by (simp add: cam2_def)
    show ?thesis
      unfolding eq using grows_trans [OF g2 ih(1)] d2 ih(2) by blast
  qed
qed

lemma set_mobjects_as_static_single:
  "set_mobjects_as_static drv [mob] cam = (Inr u, cam') \<Longrightarrow>
     \<exists>gs camb. build_groups drv (shader_wrapper_list mob) cam = (Inr gs, camb) \<and>
       cam' = camb\<lparr>static_mobject_to_render_group_list :=
                AList.update (mob_id mob) gs (static_mobject_to_render_group_list camb)\<rparr>"
  by (auto split: prod.splits sum.splits)

lemma camera_inv_grows:
  "camera_inv cam \<Longrightarrow> grows cam cam' \<Longrightarrow>
     distinct (map fst (static_mobject_to_render_group_list cam')) \<Longrightarrow> camera_inv cam'"
  by (simp add: camera_inv_def grows_def)

lemma camera_inv_get_render_group:
  "camera_inv cam \<Longrightarrow> camera_inv (snd (get_render_group drv sw su cam))"
proof -
  assume i: "camera_inv cam"
  then have "distinct (map fst (static_mobject_to_render_group_list cam))"
    by (simp add: camera_inv_def)
  with get_render_group_grows [of cam drv sw su] i show ?thesis
    by (auto intro: camera_inv_grows [of cam])
qed

lemma camera_inv_set_mobjects_as_static:
  "camera_inv cam \<Longrightarrow> camera_inv (snd (set_mobjects_as_static drv mobs cam))"
proof -
  assume i: "camera_inv cam"
  then have "distinct (map fst (static_mobject_to_render_group_list cam))"
    by (simp add: camera_inv_def)
  with set_mobjects_as_static_grows [of cam drv mobs] i show ?thesis
    by (auto intro: camera_inv_grows [of cam])
qed

lemma camera_inv_release_render_group [simp]:
  "camera_inv (release_render_group rg cam) = camera_inv cam"
  by (simp add: release_render_group_def Let_def)

lemma camera_inv_release_all:
  "camera_inv (foldl (\<lambda>c rg. release_render_group rg c) cam gs) = camera_inv cam"
  by (induction gs arbitrary: cam) simp_all

lemma camera_inv_release_static_mobjects:
  "camera_inv cam \<Longrightarrow> camera_inv (release_static_mobjects cam)"
proof -
  assume "camera_inv cam"
  then have "camera_inv (foldl (\<lambda>c rg. release_render_group rg c) cam
        (concat (map snd (static_mobject_to_render_group_list cam))))"
    by (simp add: camera_inv_release_all)
  then show ?thesis
    by (simp add: release_static_mobjects_def camera_inv_def)
qed

lemma camera_inv_bind_textures:
  "camera_inv cam \<Longrightarrow> camera_inv (snd (bind_textures drv shader tps cam))"
proof (induction tps arbitrary: cam)
  case Nil
  then show ?case by simp
next
  case (Cons tp tps)
  obtain name path where tp: "tp = (name, path)" by (cases tp) auto
  obtain r cam1 where a: "get_texture_id drv path cam = (r, cam1)" by fastforce
  with camera_inv_get_texture_id [OF Cons.prems, of drv path] have i1: "camera_inv cam1"
    by simp
  show ?case
  proof (cases r)
    case (Inl e)
    with a tp i1 show ?thesis by simp
  next
    case (Inr tid)
    obtain r2 c where b: "program_set shader name (IntVal tid) (ctx cam1) = (r2, c)"
      by fastforce
    from i1 have "camera_inv (cam1\<lparr>ctx := c\<rparr>)" by simp
    with Cons.IH [of "cam1\<lparr>ctx := c\<rparr>"] a tp Inr b i1 show ?thesis
      by (cases r2) simp_all
  qed
qed

lemma camera_inv_set_shader_uniforms:
  "camera_inv cam \<Longrightarrow> camera_inv (snd (set_shader_uniforms drv shader sw cam))"
  using camera_inv_bind_textures [of cam drv shader "texture_paths sw"]
  by (auto simp add: set_shader_uniforms_def split: prod.splits sum.splits)

lemma camera_inv_init_camera: "camera_inv (init_camera fr c pu)"
  by (simp add: camera_inv_def init_camera_def init_shaders_def init_textures_def)

lemma reachable_camera_inv: "reachable drv cam \<Longrightarrow> camera_inv cam"
proof (induction rule: reachable.induct)
  case (r_init fr c pu)
  show ?case by (rule camera_inv_init_camera)
next
  case (r_frame cam fr)
  then show ?case by (simp add: camera_inv_def)
next
  case (r_perspective cam pu)
  then show ?case by (simp add: camera_inv_def)
next
  case (r_program cam sw)
  then show ?case by (simp add: camera_inv_get_shader_program)
next
  case (r_texture cam path)
  then show ?case by (simp add: camera_inv_get_texture_id)
next
  case (r_release_texture cam path)
  then show ?case by (simp add: camera_inv_release_texture)
next
  case (r_group cam sw su)
  then show ?case by (simp add: camera_inv_get_render_group)
next
  case (r_release_group cam rg)
  then show ?case by simp
next
  case (r_static cam mobs)
  then show ?case by (simp add: camera_inv_set_mobjects_as_static)
next
  case (r_release_static cam)
  then show ?case by (simp add: camera_inv_release_static_mobjects)
next
  case (r_uniforms cam shader sw)
  then show ?case by (simp add: camera_inv_set_shader_uniforms)
qed

text \<open>
  Claim C10: the program cache starts with the empty program id mapped to no program, and
  no method of the camera ever changes that entry, so on every reachable camera a shader
  unit with the empty id resolves to \<^verbatim>\<open>None\<close> and nothing is compiled (the camera is
  unchanged). On a fresh camera no non-empty id is cached, and a request for an id that is
  not cached goes to the compiler: it fails when the source does not compile, and otherwise
  it creates a program object and caches it.
\<close>

theorem empty_program_id_resolves_to_none:
  "reachable drv cam \<Longrightarrow>
     id_to_shader_program (init_shaders cam0) [] = Some None \<and>
     (program_id sw = [] \<longrightarrow> get_shader_program drv sw cam = (Inr None, cam)) \<and>
     (program_id sw \<noteq> [] \<longrightarrow>
        id_to_shader_program (init_camera fr c pu) (program_id sw) = None) \<and>
     (id_to_shader_program cam (program_id sw) = None \<longrightarrow>
        (case compile drv (program_code sw) of
           None \<Rightarrow> get_shader_program drv sw cam = (Inl ShaderCompileError, cam)
         | Some ms \<Rightarrow>
             fst (get_shader_program drv sw cam) =
               Inr (Some (next_glo (ctx cam),
                          detect_format drv (program_code sw) (vert_attributes sw))) \<and>
             programs (ctx (snd (get_shader_program drv sw cam))) (next_glo (ctx cam)) =
               Some \<lparr>members = ms, uniform_values = Map.empty\<rparr> \<and>
             id_to_shader_program (snd (get_shader_program drv sw cam)) (program_id sw) =
               Some (Some (next_glo (ctx cam),
                           detect_format drv (program_code sw) (vert_attributes sw)))))"
proof -
  assume "reachable drv cam"
  then have "camera_inv cam" by (rule reachable_camera_inv)
  then have e: "id_to_shader_program cam [] = Some None"
    by (simp add: camera_inv_def)
  have a: "program_id sw = [] \<longrightarrow> get_shader_program drv sw cam = (Inr None, cam)"
    using e by (auto intro: get_shader_program_hit)
  have b: "program_id sw \<noteq> [] \<longrightarrow>
        id_to_shader_program (init_camera fr c pu) (program_id sw) = None"
    by (simp add: init_camera_def init_shaders_def init_textures_def)
  have d: "id_to_shader_program cam (program_id sw) = None \<longrightarrow>
        (case compile drv (program_code sw) of
           None \<Rightarrow> get_shader_program drv sw cam = (Inl ShaderCompileError, cam)
         | Some ms \<Rightarrow>
             fst (get_shader_program drv sw cam) =
               Inr (Some (next_glo (ctx cam),
                          detect_format drv (program_code sw) (vert_attributes sw))) \<and>
             programs (ctx (snd (get_shader_program drv sw cam))) (next_glo (ctx cam)) =
               Some \<lparr>members = ms, uniform_values = Map.empty\<rparr> \<and>
             id_to_shader_program (snd (get_shader_program drv sw cam)) (program_id sw) =
               Some (Some (next_glo (ctx cam),
                           detect_format drv (program_code sw) (vert_attributes sw))))"
    by (cases "compile drv (program_code sw)")
       (simp_all add: get_shader_program_fail get_shader_program_miss)
  have i: "id_to_shader_program (init_shaders cam0) [] = Some None"
    by (simp add: init_shaders_def)
  from i a b d show ?thesis by blast
qed

theorem empty_program_id_resolves_to_none_witness:
  "reachable example_driver example_camera \<and>
   program_id (example_unit\<lparr>program_id := []\<rparr>) = [] \<and>
   get_shader_program example_driver (example_unit\<lparr>program_id := []\<rparr>) example_camera =
     (Inr None, example_camera) \<and>
   id_to_shader_program example_camera (program_id example_unit) = None \<and>
   fst (get_shader_program example_driver example_unit example_camera) = Inr (Some (0, ''3f''))"
proof -
  have r: "reachable example_driver example_camera"
    unfolding example_camera_def by (rule r_init)
  have m: "id_to_shader_program example_camera (program_id example_unit) = None"
    by (simp add: example_camera_fields example_unit_def)
  have c: "compile example_driver (program_code example_unit) = Some [''color'', ''frame_shape'']"
    by (simp add: example_driver_def)
  have n: "next_glo (ctx example_camera) = 0"
    by (simp add: example_camera_fields example_context_def)
  have f: "detect_format example_driver (program_code example_unit) (vert_attributes example_unit) = ''3f''"
    by (simp add: example_driver_def)
  from empty_program_id_resolves_to_none [OF r, of example_camera "example_unit\<lparr>program_id := []\<rparr>"]
  have a: "get_shader_program example_driver (example_unit\<lparr>program_id := []\<rparr>) example_camera =
     (Inr None, example_camera)"
    by simp
  from empty_program_id_resolves_to_none [OF r, of example_camera example_unit] m
  have "case compile example_driver (program_code example_unit) of
           None \<Rightarrow> get_shader_program example_driver example_unit example_camera =
                      (Inl ShaderCompileError, example_camera)
         | Some ms \<Rightarrow>
             fst (get_shader_program example_driver example_unit example_camera) =
               Inr (Some (next_glo (ctx example_camera),
                          detect_format example_driver (program_code example_unit)
                            (vert_attributes example_unit))) \<and>
             programs (ctx (snd (get_shader_program example_driver example_unit example_camera)))
                (next_glo (ctx example_camera)) =
               Some \<lparr>members = ms, uniform_values = Map.empty\<rparr> \<and>
             id_to_shader_program (snd (get_shader_program example_driver example_unit example_camera))
                (program_id example_unit) =
               Some (Some (next_glo (ctx example_camera),
                           detect_format example_driver (program_code example_unit)
                             (vert_attributes example_unit)))"
    by blast
  then have b: "fst (get_shader_program example_driver example_unit example_camera) =
      Inr (Some (0, ''3f''))"
    by (simp add: c n f)
  from r a m b show ?thesis by simp
qed

text \<open>
  Claim C7: on a reachable camera, when a request for the slot of a texture path succeeds,
  a second request returns the same slot and leaves the camera and its context unchanged
  (nothing is loaded again); after \<^verbatim>\<open>release_texture\<close> the path is no longer cached, and a
  fresh request loads the image again and returns the next slot of the counter, which is
  larger than the slot returned before.
\<close>

theorem texture_slot_is_cached:
  "reachable drv cam \<Longrightarrow> get_texture_id drv path cam = (Inr tid, cam1) \<Longrightarrow>
     get_texture_id drv path cam1 = (Inr tid, cam1) \<and>
     tid < n_textures cam1 \<and>
     path_to_texture (release_texture path cam1) path = None \<and>
     fst (get_texture_id drv path (release_texture path cam1)) =
       (if image_ok drv path then Inr (n_textures cam1) else Inl ImageLoadError) \<and>
     fst (get_texture_id drv path (release_texture path cam1)) \<noteq> Inr tid"
proof -
  assume r: "reachable drv cam" and first: "get_texture_id drv path cam = (Inr tid, cam1)"
  from r have "camera_inv cam" by (rule reachable_camera_inv)
  with camera_inv_get_texture_id [of cam drv path] first have i1: "camera_inv cam1"
    by simp
  from first have "\<exists>texture. path_to_texture cam1 path = Some (tid, texture)"
    by (cases "path_to_texture cam path"; cases "image_ok drv path")
       (auto simp add: get_texture_id_cases)
  then obtain texture where e: "path_to_texture cam1 path = Some (tid, texture)" by blast
  from e have second: "get_texture_id drv path cam1 = (Inr tid, cam1)"
    by (simp add: get_texture_id_hit)
  from e i1 have lt: "tid < n_textures cam1"
    unfolding camera_inv_def by blast
  have gone: "path_to_texture (release_texture path cam1) path = None"
    by (simp add: release_texture_def e)
  have n: "n_textures (release_texture path cam1) = n_textures cam1"
    by (simp add: release_texture_def e)
  have fresh: "fst (get_texture_id drv path (release_texture path cam1)) =
       (if image_ok drv path then Inr (n_textures cam1) else Inl ImageLoadError)"
    using gone n by (simp add: get_texture_id_fail get_texture_id_miss)
  from second lt gone fresh show ?thesis by auto
qed

theorem texture_slot_is_cached_witness:
  "reachable example_driver example_camera \<and>
   fst (get_texture_id example_driver ''earth.png'' example_camera) = Inr 0 \<and>
   fst (get_texture_id example_driver ''earth.png''
          (snd (get_texture_id example_driver ''earth.png'' example_camera))) = Inr 0 \<and>
   fst (get_texture_id example_driver ''earth.png''
          (release_texture ''earth.png''
             (snd (get_texture_id example_driver ''earth.png'' example_camera)))) = Inr 1"
proof -
  have r: "reachable example_driver example_camera"
    unfolding example_camera_def by (rule r_init)
  define cam1 where "cam1 = snd (get_texture_id example_driver ''earth.png'' example_camera)"
  have m: "path_to_texture example_camera ''earth.png'' = None"
    by (simp add: example_camera_fields)
  have ok: "image_ok example_driver ''earth.png''"
    by (simp add: example_driver_def)
  have f: "fst (get_texture_id example_driver ''earth.png'' example_camera) = Inr 0"
    unfolding get_texture_id_miss [OF m ok] by (simp add: example_camera_fields)
  then have first: "get_texture_id example_driver ''earth.png'' example_camera = (Inr 0, cam1)"
    by (simp add: cam1_def prod_eq_iff)
  have n1: "n_textures cam1 = 1"
    unfolding cam1_def get_texture_id_miss [OF m ok] by (simp add: example_camera_fields)
  from texture_slot_is_cached [OF r first] ok n1
  have s: "fst (get_texture_id example_driver ''earth.png'' cam1) = Inr 0"
    and t: "fst (get_texture_id example_driver ''earth.png''
          (release_texture ''earth.png'' cam1)) = Inr 1"
    by simp_all
  from r f s t show ?thesis unfolding cam1_def by blast
qed

lemma one_entry_per_key:
  "distinct (map fst al) \<Longrightarrow> k \<in> fst ` set al \<Longrightarrow> length (filter (\<lambda>e. fst e = k) al) = 1"
proof (induction al)
  case Nil
  then show ?case by simp
next
  case (Cons a al)
  show ?case
  proof (cases "fst a = k")
    case True
    with Cons.prems have "k \<notin> fst ` set al" by auto
    then have "filter (\<lambda>e. fst e = k) al = []"
      by (auto simp add: filter_empty_conv)
    with True show ?thesis by simp
  next
    case False
    with Cons show ?thesis by auto
  qed
qed

text \<open>
  What a second promotion of the same drawable does to the index, on a reachable camera
  and with both promotions succeeding: the index keeps its keys and has exactly one entry
  for the identity, which holds the render groups built by the second promotion, one per
  shader unit, all persistent, with all their buffers alive and none shared with a group of
  the first promotion. Nothing is released on the way, so the objects of the first
  promotion are still alive afterwards.
\<close>

lemma second_promotion_replaces_entry:
  "reachable drv cam \<Longrightarrow>
   set_mobjects_as_static drv [mob] cam = (Inr (), cam1) \<Longrightarrow>
   set_mobjects_as_static drv [mob] cam1 = (Inr (), cam2) \<Longrightarrow>
   \<exists>gs1 gs2.
     map_of (static_mobject_to_render_group_list cam1) (mob_id mob) = Some gs1 \<and>
     map_of (static_mobject_to_render_group_list cam2) (mob_id mob) = Some gs2 \<and>
     map fst (static_mobject_to_render_group_list cam2) =
       map fst (static_mobject_to_render_group_list cam1) \<and>
     length (filter (\<lambda>e. fst e = mob_id mob) (static_mobject_to_render_group_list cam2)) = 1 \<and>
     length gs2 = length (shader_wrapper_list mob) \<and>
     (\<forall>g\<in>set gs2. group_handles g \<subseteq> alive (ctx cam2) \<and> \<not> single_use g) \<and>
     (\<forall>g1\<in>set gs1. \<forall>g2\<in>set gs2. group_handles g1 \<inter> group_handles g2 = {}) \<and>
     alive (ctx cam1) \<subseteq> alive (ctx cam2) \<and>
     (\<forall>g1\<in>set gs1. group_handles g1 \<subseteq> alive (ctx cam2))"
proof -
  assume r: "reachable drv cam"
    and first: "set_mobjects_as_static drv [mob] cam = (Inr (), cam1)"
    and second: "set_mobjects_as_static drv [mob] cam1 = (Inr (), cam2)"
  from set_mobjects_as_static_single [OF first] obtain gs1 camb1 where
    b1: "build_groups drv (shader_wrapper_list mob) cam = (Inr gs1, camb1)"
    and c1: "cam1 = camb1\<lparr>static_mobject_to_render_group_list :=
                AList.update (mob_id mob) gs1 (static_mobject_to_render_group_list camb1)\<rparr>"
    by blast
  from set_mobjects_as_static_single [OF second] obtain gs2 camb2 where
    b2: "build_groups drv (shader_wrapper_list mob) cam1 = (Inr gs2, camb2)"
    and c2: "cam2 = camb2\<lparr>static_mobject_to_render_group_list :=
                AList.update (mob_id mob) gs2 (static_mobject_to_render_group_list camb2)\<rparr>"
    by blast
  from build_groups_grows [of cam1 drv "shader_wrapper_list mob"] b2
  have g2: "grows cam1 camb2"
    and s2: "static_mobject_to_render_group_list camb2 = static_mobject_to_render_group_list cam1"
    by simp_all
  have x1: "ctx cam1 = ctx camb1" and x2: "ctx cam2 = ctx camb2"
    by (simp_all add: c1 c2)
  have m1: "map_of (static_mobject_to_render_group_list cam1) (mob_id mob) = Some gs1"
    by (simp add: c1 update_conv')
  have m2: "map_of (static_mobject_to_render_group_list cam2) (mob_id mob) = Some gs2"
    by (simp add: c2 update_conv')
  from m1 have k1: "mob_id mob \<in> fst ` set (static_mobject_to_render_group_list cam1)"
    by (metis domI dom_map_of_conv_image_fst)
  then have keys: "map fst (static_mobject_to_render_group_list cam2) =
       map fst (static_mobject_to_render_group_list cam1)"
    by (simp add: c2 s2 update_keys)
  from r have "camera_inv cam" by (rule reachable_camera_inv)
  with camera_inv_set_mobjects_as_static [of cam drv "[mob]"] first
  have "camera_inv cam1" by simp
  then have "distinct (map fst (static_mobject_to_render_group_list cam1))"
    by (simp add: camera_inv_def)
  with keys have d2: "distinct (map fst (static_mobject_to_render_group_list cam2))"
    by simp
  from k1 keys have "mob_id mob \<in> fst ` set (static_mobject_to_render_group_list cam2)"
    by (metis list.set_map)
  with d2 have one:
    "length (filter (\<lambda>e. fst e = mob_id mob) (static_mobject_to_render_group_list cam2)) = 1"
    by (rule one_entry_per_key)
  from build_groups_ok [OF b1]
  have o1: "\<forall>g\<in>set gs1. group_handles g \<subseteq> alive (ctx cam1) \<and>
      group_handles g \<subseteq> {next_glo (ctx cam)..<next_glo (ctx cam1)}"
    by (simp add: x1)
  from build_groups_ok [OF b2]
  have l2: "length gs2 = length (shader_wrapper_list mob)"
    and o2: "\<forall>g\<in>set gs2. group_handles g \<subseteq> alive (ctx cam2) \<and>
      group_handles g \<subseteq> {next_glo (ctx cam1)..<next_glo (ctx cam2)} \<and> \<not> single_use g"
    by (simp_all add: x2)
  from g2 have sub: "alive (ctx cam1) \<subseteq> alive (ctx cam2)"
    by (simp add: grows_def x2)
  from o1 o2 have disj: "\<forall>g1\<in>set gs1. \<forall>g2\<in>set gs2. group_handles g1 \<inter> group_handles g2 = {}"
    by (fastforce simp add: subset_iff)
  from o1 sub have still: "\<forall>g1\<in>set gs1. group_handles g1 \<subseteq> alive (ctx cam2)"
    by blast
  from m1 m2 keys one l2 o2 disj sub still show ?thesis by blast
qed

lemma second_promotion_replaces_entry_example:
  "reachable example_driver example_camera \<and>
   fst (set_mobjects_as_static example_driver [example_mobject] example_camera) = Inr () \<and>
   fst (set_mobjects_as_static example_driver [example_mobject]
          (snd (set_mobjects_as_static example_driver [example_mobject] example_camera))) = Inr () \<and>
   length (filter (\<lambda>e. fst e = mob_id example_mobject)
     (static_mobject_to_render_group_list
        (snd (set_mobjects_as_static example_driver [example_mobject]
           (snd (set_mobjects_as_static example_driver [example_mobject] example_camera)))))) = 1"
proof -
  have r: "reachable example_driver example_camera"
    unfolding example_camera_def by (rule r_init)
  define cam1 where
    "cam1 = snd (set_mobjects_as_static example_driver [example_mobject] example_camera)"
  define cam2 where
    "cam2 = snd (set_mobjects_as_static example_driver [example_mobject] cam1)"
  have f1: "fst (set_mobjects_as_static example_driver [example_mobject] example_camera) = Inr ()"
    by (simp add: example_camera_def example_mobject_def example_driver_def example_unit_def
        example_context_def init_camera_def init_shaders_def init_textures_def
        get_render_group_def get_shader_program_def new_object_def new_program_def Let_def)
  have f2: "fst (set_mobjects_as_static example_driver [example_mobject] cam1) = Inr ()"
    unfolding cam1_def
    by (simp add: example_camera_def example_mobject_def example_driver_def example_unit_def
        example_context_def init_camera_def init_shaders_def init_textures_def
        get_render_group_def get_shader_program_def new_object_def new_program_def Let_def)
  from f1 have first:
    "set_mobjects_as_static example_driver [example_mobject] example_camera = (Inr (), cam1)"
    by (simp add: cam1_def prod_eq_iff)
  from f2 have second:
    "set_mobjects_as_static example_driver [example_mobject] cam1 = (Inr (), cam2)"
    by (simp add: cam2_def prod_eq_iff)
  from second_promotion_replaces_entry [OF r first second]
  have "length (filter (\<lambda>e. fst e = mob_id example_mobject)
      (static_mobject_to_render_group_list cam2)) = 1"
    by blast
  with r f1 f2 show ?thesis unfolding cam2_def cam1_def by blast
qed

text \<open>
  Claim C1 does not hold of the code: \<^verbatim>\<open>set_mobjects_as_static\<close> assigns the new list of
  groups to the key and never releases the list it replaces. On the example camera the
  first promotion of the example drawable creates the vertex buffer 0 and the vertex array
  2; the second promotion puts the new group (buffer 3, array 4) in the index, and the
  objects 0 and 2 stay alive. No entry of the index refers to them any more, so
  \<^verbatim>\<open>release_static_mobjects\<close> empties the index, releases 3 and 4, and leaves 0 and 2 alive.
\<close>

theorem first_promotion_buffers_leak:
  "static_mobject_to_render_group_list
     (snd (set_mobjects_as_static example_driver [example_mobject] example_camera)) =
     [(7, [\<lparr>vbo = 0, ibo = None, vao = 2, prog = 1, rg_shader_wrapper = example_unit,
            single_use = False\<rparr>])] \<and>
   static_mobject_to_render_group_list
     (snd (set_mobjects_as_static example_driver [example_mobject]
        (snd (set_mobjects_as_static example_driver [example_mobject] example_camera)))) =
     [(7, [\<lparr>vbo = 3, ibo = None, vao = 4, prog = 1, rg_shader_wrapper = example_unit,
            single_use = False\<rparr>])] \<and>
   0 \<in> alive (ctx (snd (set_mobjects_as_static example_driver [example_mobject]
        (snd (set_mobjects_as_static example_driver [example_mobject] example_camera))))) \<and>
   2 \<in> alive (ctx (snd (set_mobjects_as_static example_driver [example_mobject]
        (snd (set_mobjects_as_static example_driver [example_mobject] example_camera))))) \<and>
   static_mobject_to_render_group_list
     (release_static_mobjects (snd (set_mobjects_as_static example_driver [example_mobject]
        (snd (set_mobjects_as_static example_driver [example_mobject] example_camera))))) = [] \<and>
   alive (ctx (release_static_mobjects (snd (set_mobjects_as_static example_driver [example_mobject]
        (snd (set_mobjects_as_static example_driver [example_mobject] example_camera)))))) =
     {0, 2}"
  by (simp add: example_camera_def example_mobject_def example_driver_def example_unit_def
        example_context_def init_camera_def init_shaders_def init_textures_def
        get_render_group_def get_shader_program_def new_object_def new_program_def Let_def
        release_static_mobjects_def release_render_group_def release_object_def
        numeral_2_eq_2 numeral_3_eq_3)
     auto

section \<open>Binding uniforms\<close>

lemma program_set_member:
  "programs c shader = Some p \<Longrightarrow> name \<in> set (members p) \<Longrightarrow>
     program_set shader name v c =
       (Inr (), c\<lparr>programs := (programs c)(shader \<mapsto>
                     p\<lparr>uniform_values := (uniform_values p)(name \<mapsto> v)\<rparr>)\<rparr>)"
  by (simp add: program_set_def)

lemma program_set_absent:
  "programs c shader = Some p \<Longrightarrow> name \<notin> set (members p) \<Longrightarrow>
     program_set shader name v c = (Inl KeyError, c)"
  by (simp add: program_set_def)

lemma bind_uniforms_result:
  "programs c shader = Some p \<Longrightarrow>
     \<exists>p'. bind_uniforms shader us c = (Inr (), c\<lparr>programs := (programs c)(shader \<mapsto> p')\<rparr>) \<and>
          members p' = members p \<and>
          (\<forall>name. uniform_values p' name =
             (if name \<in> set (members p)
              then (case map_of (rev us) name of
                      None \<Rightarrow> uniform_values p name
                    | Some v \<Rightarrow> Some (as_uniform_value v))
              else uniform_values p name))"
proof (induction us arbitrary: c p)
  case Nil
  then have e: "(programs c)(shader \<mapsto> p) = programs c"
    by (rule map_upd_triv)
  have "c\<lparr>programs := (programs c)(shader \<mapsto> p)\<rparr> = c"
    unfolding e by simp
  then have f: "bind_uniforms shader [] c = (Inr (), c\<lparr>programs := (programs c)(shader \<mapsto> p)\<rparr>)"
    by (simp only: bind_uniforms.simps)
  show ?case
  proof (intro exI [of _ p] conjI allI)
    show "bind_uniforms shader [] c = (Inr (), c\<lparr>programs := (programs c)(shader \<mapsto> p)\<rparr>)"
      by (rule f)
  qed simp_all
next
  case (Cons u us)
  obtain n v0 where u: "u = (n, v0)" by (cases u) auto
  show ?case
  proof (cases "n \<in> set (members p)")
    case True
    define p1 where "p1 = p\<lparr>uniform_values := (uniform_values p)(n \<mapsto> as_uniform_value v0)\<rparr>"
    define c1 where "c1 = c\<lparr>programs := (programs c)(shader \<mapsto> p1)\<rparr>"
    have s: "program_set shader n (as_uniform_value v0) c = (Inr (), c1)"
      using Cons.prems True by (simp add: program_set_member c1_def p1_def)
    have "programs c1 shader = Some p1" by (simp add: c1_def)
    from Cons.IH [OF this] obtain p' where
      b: "bind_uniforms shader us c1 = (Inr (), c1\<lparr>programs := (programs c1)(shader \<mapsto> p')\<rparr>)"
      and m: "members p' = members p1"
      and v: "\<forall>name. uniform_values p' name =
             (if name \<in> set (members p1)
              then (case map_of (rev us) name of
                      None \<Rightarrow> uniform_values p1 name
                    | Some v \<Rightarrow> Some (as_uniform_value v))
              else uniform_values p1 name)"
      by blast
    have e: "c1\<lparr>programs := (programs c1)(shader \<mapsto> p')\<rparr> = c\<lparr>programs := (programs c)(shader \<mapsto> p')\<rparr>"
      by (simp add: c1_def)
    have "bind_uniforms shader (u # us) c = (Inr (), c\<lparr>programs := (programs c)(shader \<mapsto> p')\<rparr>)"
      using s b e by (simp add: u)
    moreover have "members p' = members p" using m by (simp add: p1_def)
    moreover have "\<forall>name. uniform_values p' name =
             (if name \<in> set (members p)
              then (case map_of (rev (u # us)) name of
                      None \<Rightarrow> uniform_values p name
                    | Some v \<Rightarrow> Some (as_uniform_value v))
              else uniform_values p name)"
      using v True
      by (auto simp add: u p1_def map_add_def split: option.splits)
    ultimately show ?thesis by blast
  next
    case False
    have s: "program_set shader n (as_uniform_value v0) c = (Inl KeyError, c)"
      using Cons.prems False by (simp add: program_set_absent)
    from Cons.IH [OF Cons.prems] obtain p' where
      b: "bind_uniforms shader us c = (Inr (), c\<lparr>programs := (programs c)(shader \<mapsto> p')\<rparr>)"
      and m: "members p' = members p"
      and v: "\<forall>name. uniform_values p' name =
             (if name \<in> set (members p)
              then (case map_of (rev us) name of
                      None \<Rightarrow> uniform_values p name
                    | Some v \<Rightarrow> Some (as_uniform_value v))
              else uniform_values p name)"
      by blast
    have "bind_uniforms shader (u # us) c = (Inr (), c\<lparr>programs := (programs c)(shader \<mapsto> p')\<rparr>)"
      using s b by (simp add: u)
    moreover have "\<forall>name. uniform_values p' name =
             (if name \<in> set (members p)
              then (case map_of (rev (u # us)) name of
                      None \<Rightarrow> uniform_values p name
                    | Some v \<Rightarrow> Some (as_uniform_value v))
              else uniform_values p name)"
      using v False
      by (auto simp add: u map_add_def split: option.splits)
    ultimately show ?thesis using m by blast
  qed
qed

lemma get_texture_id_programs:
  "programs (ctx (snd (get_texture_id drv path cam))) = programs (ctx cam) \<and>
   perspective_uniforms (snd (get_texture_id drv path cam)) = perspective_uniforms cam"
  by (cases "path_to_texture cam path"; cases "image_ok drv path")
     (simp_all add: get_texture_id_cases)

lemma bind_textures_result:
  "programs (ctx cam) shader = Some p \<Longrightarrow>
   bind_textures drv shader tps cam = (Inr u, cam1) \<Longrightarrow>
     \<exists>p1. programs (ctx cam1) shader = Some p1 \<and> members p1 = members p \<and>
          (\<forall>name. name \<notin> set (members p) \<longrightarrow> uniform_values p1 name = uniform_values p name) \<and>
          perspective_uniforms cam1 = perspective_uniforms cam"
proof (induction tps arbitrary: cam p)
  case Nil
  then show ?case by simp
next
  case (Cons tp tps)
  obtain name path where tp: "tp = (name, path)" by (cases tp) auto
  obtain r cama where a: "get_texture_id drv path cam = (r, cama)" by fastforce
  with get_texture_id_programs [of drv path cam]
  have pa: "programs (ctx cama) = programs (ctx cam)"
    and ua: "perspective_uniforms cama = perspective_uniforms cam"
    by simp_all
  from Cons.prems(2) a tp obtain tid where r: "r = Inr tid"
    by (cases r) auto
  show ?case
  proof (cases "name \<in> set (members p)")
    case True
    define p1 where "p1 = p\<lparr>uniform_values := (uniform_values p)(name \<mapsto> IntVal tid)\<rparr>"
    define camb where
      "camb = cama\<lparr>ctx := (ctx cama)\<lparr>programs := (programs (ctx cama))(shader \<mapsto> p1)\<rparr>\<rparr>"
    have s: "program_set shader name (IntVal tid) (ctx cama) =
        (Inr (), (ctx cama)\<lparr>programs := (programs (ctx cama))(shader \<mapsto> p1)\<rparr>)"
      using Cons.prems(1) True pa by (simp add: program_set_member p1_def)
    have rest: "bind_textures drv shader tps camb = (Inr u, cam1)"
      using Cons.prems(2) a tp r s by (simp add: camb_def)
    have "programs (ctx camb) shader = Some p1" by (simp add: camb_def)
    from Cons.IH [OF this rest] obtain p2 where
      "programs (ctx cam1) shader = Some p2" "members p2 = members p1"
      "\<forall>n. n \<notin> set (members p1) \<longrightarrow> uniform_values p2 n = uniform_values p1 n"
      "perspective_uniforms cam1 = perspective_uniforms camb"
      by blast
    with True ua show ?thesis
      by (auto simp add: p1_def camb_def)
  next
    case False
    have "program_set shader name (IntVal tid) (ctx cama) = (Inl KeyError, ctx cama)"
      using Cons.prems(1) False pa by (simp add: program_set_absent)
    with Cons.prems(2) a tp r show ?thesis by simp
  qed
qed

text \<open>
  The second loop of \<^verbatim>\<open>set_shader_uniforms\<close>: when the shader is a program of the context
  and the texture loop has gone through, the call returns without an error whatever names
  the shader unit's uniforms and the perspective uniforms carry; a name that is not a
  member of the program keeps the value it had (nothing is set for it), and every name that
  is a member and occurs among the uniforms ends up bound to the value of its last
  occurrence (an array turned into a tuple).
\<close>

lemma absent_uniforms_are_skipped:
  "programs (ctx cam) shader = Some p \<Longrightarrow>
   bind_textures drv shader (texture_paths sw) cam = (Inr (), cam1) \<Longrightarrow>
     \<exists>p2. fst (set_shader_uniforms drv shader sw cam) = Inr () \<and>
          programs (ctx (snd (set_shader_uniforms drv shader sw cam))) shader = Some p2 \<and>
          members p2 = members p \<and>
          (\<forall>name. name \<notin> set (members p) \<longrightarrow> uniform_values p2 name = uniform_values p name) \<and>
          (\<forall>name v. name \<in> set (members p) \<and>
                     map_of (rev (uniforms sw @ perspective_uniforms cam)) name = Some v \<longrightarrow>
                     uniform_values p2 name = Some (as_uniform_value v))"
proof -
  assume prog: "programs (ctx cam) shader = Some p"
    and tex: "bind_textures drv shader (texture_paths sw) cam = (Inr (), cam1)"
  from bind_textures_result [OF prog tex] obtain p1 where
    p1: "programs (ctx cam1) shader = Some p1"
    and m1: "members p1 = members p"
    and v1: "\<forall>name. name \<notin> set (members p) \<longrightarrow> uniform_values p1 name = uniform_values p name"
    and u1: "perspective_uniforms cam1 = perspective_uniforms cam"
    by blast
  from bind_uniforms_result [OF p1, of "uniforms sw @ perspective_uniforms cam1"]
  obtain p2 where
    b: "bind_uniforms shader (uniforms sw @ perspective_uniforms cam1) (ctx cam1) =
        (Inr (), (ctx cam1)\<lparr>programs := (programs (ctx cam1))(shader \<mapsto> p2)\<rparr>)"
    and m2: "members p2 = members p1"
    and v2: "\<forall>name. uniform_values p2 name =
             (if name \<in> set (members p1)
              then (case map_of (rev (uniforms sw @ perspective_uniforms cam1)) name of
                      None \<Rightarrow> uniform_values p1 name
                    | Some v \<Rightarrow> Some (as_uniform_value v))
              else uniform_values p1 name)"
    by blast
  have r: "set_shader_uniforms drv shader sw cam =
      (Inr (), cam1\<lparr>ctx := (ctx cam1)\<lparr>programs := (programs (ctx cam1))(shader \<mapsto> p2)\<rparr>\<rparr>)"
    using tex b by (simp add: set_shader_uniforms_def)
  have "fst (set_shader_uniforms drv shader sw cam) = Inr ()"
    by (simp add: r)
  moreover have "programs (ctx (snd (set_shader_uniforms drv shader sw cam))) shader = Some p2"
    by (simp add: r)
  moreover have "members p2 = members p" using m1 m2 by simp
  moreover have "\<forall>name. name \<notin> set (members p) \<longrightarrow> uniform_values p2 name = uniform_values p name"
    using v1 v2 m1 by simp
  moreover have "\<forall>name v. name \<in> set (members p) \<and>
                     map_of (rev (uniforms sw @ perspective_uniforms cam)) name = Some v \<longrightarrow>
                     uniform_values p2 name = Some (as_uniform_value v)"
    using v2 m1 u1 by simp
  ultimately show ?thesis by blast
qed


lemma absent_uniforms_are_skipped_example:
  "programs (ctx (snd (get_shader_program example_driver example_unit example_camera))) 0 =
     Some \<lparr>members = [''color'', ''frame_shape''], uniform_values = Map.empty\<rparr> \<and>
   bind_textures example_driver 0 (texture_paths example_unit)
       (snd (get_shader_program example_driver example_unit example_camera)) =
     (Inr (), snd (get_shader_program example_driver example_unit example_camera)) \<and>
   fst (set_shader_uniforms example_driver 0 example_unit
          (snd (get_shader_program example_driver example_unit example_camera))) = Inr () \<and>
   map_option (\<lambda>q. (uniform_values q ''gloss'', uniform_values q ''color'',
                     uniform_values q ''frame_shape''))
     (programs (ctx (snd (set_shader_uniforms example_driver 0 example_unit
          (snd (get_shader_program example_driver example_unit example_camera))))) 0) =
     Some (None, Some (Tuple [1, 0, 0]), Some (Tuple [2, 2]))"
proof -
  define camP where "camP = snd (get_shader_program example_driver example_unit example_camera)"
  define p where "p = \<lparr>members = [''color'', ''frame_shape''], uniform_values = Map.empty\<rparr>"
  have m: "id_to_shader_program example_camera (program_id example_unit) = None"
    by (simp add: example_camera_fields example_unit_def)
  have c: "compile example_driver (program_code example_unit) = Some [''color'', ''frame_shape'']"
    by (simp add: example_driver_def)
  have prog: "programs (ctx camP) 0 = Some p"
    unfolding camP_def p_def get_shader_program_miss [OF m c]
    by (simp add: example_camera_fields example_context_def)
  have pu: "perspective_uniforms camP = [(''frame_shape'', Tuple [2, 2])]"
    unfolding camP_def get_shader_program_miss [OF m c]
    by (simp add: example_camera_fields)
  have tex: "bind_textures example_driver 0 (texture_paths example_unit) camP = (Inr (), camP)"
    by (simp add: example_unit_def)
  from absent_uniforms_are_skipped [OF prog tex] obtain p2 where
    ok: "fst (set_shader_uniforms example_driver 0 example_unit camP) = Inr ()"
    and p2: "programs (ctx (snd (set_shader_uniforms example_driver 0 example_unit camP))) 0 = Some p2"
    and absent: "\<forall>name. name \<notin> set (members p) \<longrightarrow> uniform_values p2 name = uniform_values p name"
    and bound: "\<forall>name v. name \<in> set (members p) \<and>
                     map_of (rev (uniforms example_unit @ perspective_uniforms camP)) name = Some v \<longrightarrow>
                     uniform_values p2 name = Some (as_uniform_value v)"
    by blast
  from absent have g: "uniform_values p2 ''gloss'' = None"
    by (simp add: p_def)
  have "map_of (rev (uniforms example_unit @ perspective_uniforms camP)) ''color'' =
      Some (NdArray [1, 0, 0])"
    by (simp add: pu example_unit_def)
  with bound have "uniform_values p2 ''color'' = Some (as_uniform_value (NdArray [1, 0, 0]))"
    by (simp add: p_def)
  then have col: "uniform_values p2 ''color'' = Some (Tuple [1, 0, 0])"
    by (simp add: as_uniform_value_def)
  have "map_of (rev (uniforms example_unit @ perspective_uniforms camP)) ''frame_shape'' =
      Some (Tuple [2, 2])"
    by (simp add: pu example_unit_def)
  with bound have "uniform_values p2 ''frame_shape'' = Some (as_uniform_value (Tuple [2, 2]))"
    by (simp add: p_def)
  then have fs: "uniform_values p2 ''frame_shape'' = Some (Tuple [2, 2])"
    by (simp add: as_uniform_value_def)
  from prog tex ok p2 g col fs show ?thesis
    unfolding camP_def p_def by simp
qed


text \<open>
  The first loop is not guarded: a sampler name of \<^verbatim>\<open>texture_paths\<close> that the program does
  not have ends the call with the KeyError.
\<close>

lemma absent_sampler_raises:
  "programs (ctx cam) shader = Some p \<Longrightarrow> name \<notin> set (members p) \<Longrightarrow>
   path_to_texture cam path = Some entry \<Longrightarrow> texture_paths sw = (name, path) # rest \<Longrightarrow>
     fst (set_shader_uniforms drv shader sw cam) = Inl KeyError"
  by (simp add: set_shader_uniforms_def get_texture_id_hit program_set_absent)

text \<open>
  Claim C8 does not hold of the code for the sampler names of \<^verbatim>\<open>texture_paths\<close>, which
  are uniform names of the shader unit too. The example program has the members
  \<^verbatim>\<open>color\<close> and \<^verbatim>\<open>frame_shape\<close>. For the example unit with the texture path
  \<^verbatim>\<open>Texture\<close>, a name the program does not have, the assignment of the first loop raises
  KeyError outside the \<^verbatim>\<open>try\<close>: the call ends with that error and binds nothing, not even
  \<^verbatim>\<open>color\<close> and \<^verbatim>\<open>frame_shape\<close>. Without the texture path the same call returns normally.
\<close>

theorem absent_sampler_aborts_binding:
  "programs (ctx (snd (get_shader_program example_driver example_unit example_camera))) 0 =
     Some \<lparr>members = [''color'', ''frame_shape''], uniform_values = Map.empty\<rparr> \<and>
   fst (set_shader_uniforms example_driver 0
          (example_unit\<lparr>texture_paths := [(''Texture'', ''earth.png'')]\<rparr>)
          (snd (get_shader_program example_driver example_unit example_camera))) = Inl KeyError \<and>
   programs (ctx (snd (set_shader_uniforms example_driver 0
          (example_unit\<lparr>texture_paths := [(''Texture'', ''earth.png'')]\<rparr>)
          (snd (get_shader_program example_driver example_unit example_camera))))) 0 =
     Some \<lparr>members = [''color'', ''frame_shape''], uniform_values = Map.empty\<rparr> \<and>
   fst (set_shader_uniforms example_driver 0 example_unit
          (snd (get_shader_program example_driver example_unit example_camera))) = Inr ()"
  by (simp add: example_camera_def example_driver_def example_unit_def
        example_context_def init_camera_def init_shaders_def init_textures_def
        get_shader_program_def new_object_def new_program_def Let_def
        set_shader_uniforms_def get_texture_id_def program_set_def as_uniform_value_def)

section \<open>Rotation round trip\<close>

lemma rmq_explicit:
  "rotation_matrix_transpose_from_quaternion (w, x, y, z) =
     ((w * w + x * x - y * y - z * z, 2 * (x * y + w * z), 2 * (x * z - w * y)),
      (2 * (x * y - w * z), w * w - x * x + y * y - z * z, 2 * (y * z + w * x)),
      (2 * (x * z + w * y), 2 * (y * z - w * x), w * w - x * x - y * y + z * z))"
  by (simp add: rotation_matrix_transpose_from_quaternion_def conjugate_basis_def
        quaternion_conjugate_def quat_mult2_def quat_vec_def algebra_simps)

lemma quat_norm2_mult:
  "quat_norm2 (quat_mult2 p q) = quat_norm2 p * quat_norm2 q"
  by (cases p; cases q) (simp add: quat_norm2_def quat_mult2_def algebra_simps)

lemma rmq_mult:
  "rotation_matrix_transpose_from_quaternion (quat_mult2 p q) =
     np_dot (rotation_matrix_transpose_from_quaternion q)
            (rotation_matrix_transpose_from_quaternion p)"
proof -
  obtain w1 x1 y1 z1 where p: "p = (w1, x1, y1, z1)" by (cases p) auto
  obtain w2 x2 y2 z2 where q: "q = (w2, x2, y2, z2)" by (cases q) auto
  show ?thesis
    unfolding p q quat_mult2_def prod.case rmq_explicit
    by (simp add: np_dot_def vec_mat_def dot3_def row0_def row1_def row2_def
          col0_def col1_def col2_def algebra_simps)
qed


lemma rmq_is_rotation:
  assumes "quat_norm2 q = 1"
  shows "is_rotation (rotation_matrix_transpose_from_quaternion q)"
proof -
  obtain w x y z where q: "q = (w, x, y, z)" by (cases q) auto
  define n where "n = w * w + x * x + y * y + z * z"
  have n1: "n = 1" using assms by (simp add: q quat_norm2_def n_def)
  let ?m = "rotation_matrix_transpose_from_quaternion (w, x, y, z)"
  have a: "dot3 (row0 ?m) (row0 ?m) = n * n" "dot3 (row1 ?m) (row1 ?m) = n * n"
    "dot3 (row2 ?m) (row2 ?m) = n * n"
    unfolding rmq_explicit n_def
    by (simp_all add: dot3_def row0_def row1_def row2_def algebra_simps)
  have b: "dot3 (row0 ?m) (row1 ?m) = 0" "dot3 (row0 ?m) (row2 ?m) = 0"
    "dot3 (row1 ?m) (row2 ?m) = 0"
    unfolding rmq_explicit
    by (simp_all add: dot3_def row0_def row1_def row2_def algebra_simps)
  have c: "cross3 (row2 ?m) (row0 ?m) =
      (n * fst (row1 ?m), n * fst (snd (row1 ?m)), n * snd (snd (row1 ?m)))"
    unfolding rmq_explicit n_def
    by (simp add: cross3_def row0_def row1_def row2_def algebra_simps)
  from a b c show ?thesis
    unfolding q is_rotation_def n1 by simp
qed

lemma cos_half: "cos ((t :: real) / 2) * cos (t / 2) - sin (t / 2) * sin (t / 2) = cos t"
  using cos_double [of "t / 2"] by (simp add: power2_eq_square)

lemma sin_half: "2 * (sin ((t :: real) / 2) * cos (t / 2)) = sin t"
  using sin_double [of "t / 2"] by simp

lemma sin_cos_one: "cos (t :: real) * cos t + sin t * sin t = 1"
  using sin_cos_squared_add2 [of t] by (simp add: power2_eq_square)

lemma rmq_about_z:
  "rotation_matrix_transpose_from_quaternion (cos (t / 2), 0, 0, sin (t / 2)) =
     ((cos t, sin t, 0), (- sin t, cos t, 0), (0, 0, 1))"
  using cos_half [of t] sin_half [of t] sin_cos_one [of "t / 2"]
  by (simp add: rmq_explicit algebra_simps)

lemma rmq_about_x:
  "rotation_matrix_transpose_from_quaternion (cos (t / 2), sin (t / 2), 0, 0) =
     ((1, 0, 0), (0, cos t, sin t), (0, - sin t, cos t))"
  using cos_half [of t] sin_half [of t] sin_cos_one [of "t / 2"]
  by (simp add: rmq_explicit algebra_simps)

lemma rotation_matrix_transpose_OUT:
  "rotation_matrix_transpose t OUT = ((cos t, sin t, 0), (- sin t, cos t, 0), (0, 0, 1))"
  by (simp add: rotation_matrix_transpose_def OUT_def Let_def)

lemma rotation_matrix_transpose_RIGHT:
  "rotation_matrix_transpose t RIGHT = ((1, 0, 0), (0, cos t, sin t), (0, - sin t, cos t))"
  by (simp add: rotation_matrix_transpose_def RIGHT_def quaternion_from_angle_axis_def
        normalize_def get_norm_def dot3_def rmq_about_x)

lemma euler_rotation_matrix_product:
  "euler_rotation_matrix (theta, phi, gamma) =
     np_dot (rotation_matrix_transpose gamma OUT)
       (np_dot (rotation_matrix_transpose phi RIGHT) (rotation_matrix_transpose theta OUT))"
  by (simp add: euler_rotation_matrix_def quaternion_from_angle_axis_def OUT_def RIGHT_def
        rmq_mult rmq_about_z rmq_about_x rotation_matrix_transpose_OUT [unfolded OUT_def]
        rotation_matrix_transpose_RIGHT [unfolded RIGHT_def])

lemma axis_quaternion_unit:
  "quat_norm2 (quaternion_from_angle_axis t OUT True) = 1"
  "quat_norm2 (quaternion_from_angle_axis t RIGHT True) = 1"
  using sin_cos_one [of "t / 2"]
  by (simp_all add: quaternion_from_angle_axis_def OUT_def RIGHT_def quat_norm2_def)

lemma euler_quaternion_unit:
  "quat_norm2 (quaternion_mult
             [quaternion_from_angle_axis theta OUT True,
              quaternion_from_angle_axis phi RIGHT True,
              quaternion_from_angle_axis gamma OUT True]) = 1"
  by (simp only: quaternion_mult.simps foldl.simps quat_norm2_mult axis_quaternion_unit mult_1)

lemma rotation_matrix_transpose_quaternion:
  "\<exists>q. quat_norm2 q = 1 \<and>
       rotation_matrix_transpose angle axis = rotation_matrix_transpose_from_quaternion q"
proof -
  obtain ax ay az where axis: "axis = (ax, ay, az)" by (cases axis) auto
  show ?thesis
  proof (cases "ax = 0 \<and> ay = 0")
    case True
    define sgn :: real where "sgn = (if az > 0 then 1 else - 1)"
    have s: "sgn = 1 \<or> sgn = - 1" by (simp add: sgn_def)
    have "rotation_matrix_transpose angle axis =
        ((cos angle, sin angle * sgn, 0), (- (sin angle * sgn), cos angle, 0), (0, 0, 1))"
      using True by (simp add: rotation_matrix_transpose_def axis sgn_def Let_def)
    also have "\<dots> = rotation_matrix_transpose_from_quaternion
        (cos (angle / 2), 0, 0, sgn * sin (angle / 2))"
      using s cos_half [of angle] sin_half [of angle] sin_cos_one [of "angle / 2"]
      by (auto simp add: rmq_explicit algebra_simps)
    finally have "rotation_matrix_transpose angle axis =
        rotation_matrix_transpose_from_quaternion (cos (angle / 2), 0, 0, sgn * sin (angle / 2))" .
    moreover have "quat_norm2 (cos (angle / 2), 0, 0, sgn * sin (angle / 2)) = 1"
      using s sin_cos_one [of "angle / 2"] by (auto simp add: quat_norm2_def)
    ultimately show ?thesis by blast
  next
    case False
    define n where "n = get_norm axis"
    have pos: "0 < ax * ax + ay * ay + az * az"
      using False by (metis add_pos_nonneg add_nonneg_pos not_square_less_zero
          linorder_neqE_linordered_idom mult_eq_0_iff not_le)
    then have n: "n > 0" and nn: "n * n = ax * ax + ay * ay + az * az"
      by (simp_all add: n_def get_norm_def dot3_def axis)
    have unit: "(ax / n) * (ax / n) + (ay / n) * (ay / n) + (az / n) * (az / n) = 1"
    proof -
      have "(ax / n) * (ax / n) + (ay / n) * (ay / n) + (az / n) * (az / n) =
          (ax * ax + ay * ay + az * az) / (n * n)"
        by (simp add: add_divide_distrib)
      also have "\<dots> = 1" using n unfolding nn [symmetric] by simp
      finally show ?thesis .
    qed
    have "normalize axis = (ax / n, ay / n, az / n)"
      using n by (simp add: normalize_def Let_def n_def [symmetric]) (simp add: axis)
    then have q: "quaternion_from_angle_axis angle axis False =
        (cos (angle / 2), sin (angle / 2) * (ax / n), sin (angle / 2) * (ay / n),
         sin (angle / 2) * (az / n))"
      by (simp add: quaternion_from_angle_axis_def)
    have "quat_norm2 (quaternion_from_angle_axis angle axis False) =
        cos (angle / 2) * cos (angle / 2) +
        sin (angle / 2) * sin (angle / 2) *
          ((ax / n) * (ax / n) + (ay / n) * (ay / n) + (az / n) * (az / n))"
      unfolding q by (simp add: quat_norm2_def algebra_simps)
    then have "quat_norm2 (quaternion_from_angle_axis angle axis False) = 1"
      unfolding unit using sin_cos_one [of "angle / 2"] by simp
    moreover have "rotation_matrix_transpose angle axis =
        rotation_matrix_transpose_from_quaternion (quaternion_from_angle_axis angle axis False)"
      using False by (auto simp add: rotation_matrix_transpose_def axis)
    ultimately show ?thesis by blast
  qed
qed


lemma decomposition_row0:
  fixes ct st c s n00 n01 n02 :: real
  assumes "ct * ct + st * st = 1" and "c * c + s * s = 1"
    and "s * st * n00 - s * ct * n01 + c * n02 = 0"
  shows "(ct * n00 + st * n01) * ct - (- c * st * n00 + c * ct * n01 + s * n02) * (c * st) = n00"
    and "(ct * n00 + st * n01) * st + (- c * st * n00 + c * ct * n01 + s * n02) * (c * ct) = n01"
    and "(- c * st * n00 + c * ct * n01 + s * n02) * s = n02"
  using assms by algebra+

lemma decomposition_row1:
  fixes ct st c s n00 n01 n02 :: real
  assumes "ct * ct + st * st = 1" and "c * c + s * s = 1"
  shows "- (- c * st * n00 + c * ct * n01 + s * n02) * ct - (ct * n00 + st * n01) * (c * st) =
           - (s * ct) * n02 - c * n01"
    and "- (- c * st * n00 + c * ct * n01 + s * n02) * st + (ct * n00 + st * n01) * (c * ct) =
           c * n00 - s * st * n02"
  using assms by algebra+

lemma decomposition_unit:
  fixes ct st c s n00 n01 n02 :: real
  assumes "ct * ct + st * st = 1" and "c * c + s * s = 1"
    and "s * st * n00 - s * ct * n01 + c * n02 = 0"
    and "n00 * n00 + n01 * n01 + n02 * n02 = 1"
  shows "(ct * n00 + st * n01) * (ct * n00 + st * n01) +
         (- c * st * n00 + c * ct * n01 + s * n02) * (- c * st * n00 + c * ct * n01 + s * n02) = 1"
  using assms by algebra

lemma unit_bound:
  fixes x y :: real
  assumes "x * x + y * y = 1"
  shows "- 1 \<le> x \<and> x \<le> 1"
proof -
  have "0 \<le> y * y" by simp
  with assms have "x * x \<le> 1" by linarith
  then have "x\<^sup>2 \<le> 1" by (simp add: power2_eq_square)
  then have "\<bar>x\<bar> \<le> 1" by (simp only: abs_square_le_1)
  then show ?thesis by linarith
qed

lemma angle_of_xy_unit_eq:
  "x * x + y * y = 1 \<Longrightarrow> angle_of_xy x y = (if y \<ge> 0 then arccos x else - arccos x)"
  by (simp add: angle_of_xy_def)

lemma angle_of_xy_unit:
  assumes "x * x + y * y = 1"
  shows "cos (angle_of_xy x y) = x" and "sin (angle_of_xy x y) = y"
proof -
  from unit_bound [OF assms] have b: "- 1 \<le> x" "x \<le> 1" by simp_all
  have "1 - x\<^sup>2 = y\<^sup>2" using assms by (simp add: power2_eq_square)
  then have sq: "sqrt (1 - x\<^sup>2) = \<bar>y\<bar>" by simp
  have a: "angle_of_xy x y = (if y \<ge> 0 then arccos x else - arccos x)"
    by (simp add: angle_of_xy_def assms)
  show "cos (angle_of_xy x y) = x"
    using b by (simp add: a)
  show "sin (angle_of_xy x y) = y"
    using b by (simp add: a sin_arccos sq)
qed

lemma angle_of_xy_polar:
  assumes "s = sqrt (a * a + b * b)" and "0 < s"
  shows "s * cos (angle_of_xy a b) = a" and "s * sin (angle_of_xy a b) = b"
proof -
  have "0 \<le> a * a + b * b" by simp
  then have ss: "s * s = a * a + b * b"
    by (simp add: assms(1))
  have u: "(a / s) * (a / s) + (b / s) * (b / s) = 1"
  proof -
    have "(a / s) * (a / s) + (b / s) * (b / s) = (a * a + b * b) / (s * s)"
      by (simp add: add_divide_distrib)
    also have "\<dots> = 1" using assms(2) unfolding ss [symmetric] by simp
    finally show ?thesis .
  qed
  have sg: "(0 \<le> b / s) = (0 \<le> b)"
    using assms(2) by (simp add: zero_le_divide_iff)
  have "0 < sqrt (a * a + b * b)" using assms by blast
  then have "sqrt (a * a + b * b) \<noteq> 0" by linarith
  then have "angle_of_xy a b = (if b \<ge> 0 then arccos (a / s) else - arccos (a / s))"
    unfolding angle_of_xy_def Let_def assms(1) by (simp only: if_False)
  also have "\<dots> = angle_of_xy (a / s) (b / s)"
    unfolding angle_of_xy_unit_eq [OF u] sg by (rule refl)
  finally have e: "angle_of_xy a b = angle_of_xy (a / s) (b / s)" .
  show "s * cos (angle_of_xy a b) = a"
    using assms(2) by (subst e) (simp add: angle_of_xy_unit [OF u])
  show "s * sin (angle_of_xy a b) = b"
    using assms(2) by (subst e) (simp add: angle_of_xy_unit [OF u])
qed


lemma decompose_rotation:
  assumes rot: "is_rotation N"
  shows "euler_rotation_matrix
          (angle_of_vector (row2 N) + PI / 2,
           arccos (clip (snd (snd (row2 N))) (- 1) 1),
           angle_of_vector (col0 (np_dot
              (np_dot (rotation_matrix_transpose (arccos (clip (snd (snd (row2 N))) (- 1) 1)) RIGHT)
                      (rotation_matrix_transpose (angle_of_vector (row2 N) + PI / 2) OUT))
              (mat_T N)))) = N"
proof -
  obtain n00 n01 n02 n10 n11 n12 a b c where
    N: "N = ((n00, n01, n02), (n10, n11, n12), (a, b, c))"
    by (metis prod_cases3)
  from rot have u0: "n00 * n00 + n01 * n01 + n02 * n02 = 1"
    and u2: "a * a + b * b + c * c = 1"
    and o02: "n00 * a + n01 * b + n02 * c = 0"
    and cr0: "b * n02 - c * n01 = n10"
    and cr1: "c * n00 - a * n02 = n11"
    and cr2: "a * n01 - b * n00 = n12"
    by (simp_all add: is_rotation_def N dot3_def cross3_def row0_def row1_def row2_def)
  define s where "s = sqrt (a * a + b * b)"
  have nn: "0 \<le> a * a + b * b" by simp
  have s0: "0 \<le> s" by (simp add: s_def)
  have ss: "s * s = a * a + b * b" using nn by (simp add: s_def)
  have cs: "c * c + s * s = 1" using u2 ss by linarith
  from unit_bound [OF cs] have cb: "- 1 \<le> c" "c \<le> 1" by simp_all
  have clipc: "clip c (- 1) 1 = c" using cb by (simp add: clip_def)
  define phi where "phi = arccos c"
  have cphi: "cos phi = c" using cb by (simp add: phi_def)
  have "1 - c\<^sup>2 = s\<^sup>2" using cs by (simp add: power2_eq_square)
  then have "sqrt (1 - c\<^sup>2) = s" using s0 by simp
  then have sphi: "sin phi = s" using cb by (simp add: phi_def sin_arccos)
  define theta where "theta = angle_of_xy a b + pi / 2"
  define ct where "ct = cos theta"
  define st where "st = sin theta"
  have ct: "ct = - sin (angle_of_xy a b)" by (simp add: ct_def theta_def cos_add)
  have st: "st = cos (angle_of_xy a b)" by (simp add: st_def theta_def sin_add)
  have tt: "ct * ct + st * st = 1" unfolding ct_def st_def by (rule sin_cos_one)
  have sct: "s * ct = - b \<and> s * st = a"
  proof (cases "s = 0")
    case True
    with ss have "a * a + b * b = 0" by simp
    then have "a = 0 \<and> b = 0" by (simp add: sum_squares_eq_zero_iff)
    with True show ?thesis by simp
  next
    case False
    with s0 have "0 < s" by simp
    from angle_of_xy_polar [OF s_def this] show ?thesis by (simp add: ct st)
  qed
  define P where "P = np_dot (rotation_matrix_transpose phi RIGHT)
                             (rotation_matrix_transpose theta OUT)"
  have P: "P = ((ct, st, 0), (- (c * st), c * ct, s), (s * st, - (s * ct), c))"
    by (simp add: P_def rotation_matrix_transpose_RIGHT rotation_matrix_transpose_OUT
          np_dot_def vec_mat_def dot3_def row0_def row1_def row2_def col0_def col1_def col2_def
          cphi sphi ct_def st_def)
  define x' where "x' = ct * n00 + st * n01"
  define y' where "y' = - c * st * n00 + c * ct * n01 + s * n02"
  have orth: "s * st * n00 - s * ct * n01 + c * n02 = 0"
    using o02 sct by (simp add: algebra_simps)
  have col: "col0 (np_dot P (mat_T N)) = (x', y', 0)"
    using orth
    by (simp add: P N np_dot_def vec_mat_def dot3_def row0_def row1_def row2_def
          col0_def col1_def col2_def mat_T_def x'_def y'_def algebra_simps)
  have unit: "x' * x' + y' * y' = 1"
    unfolding x'_def y'_def by (rule decomposition_unit [OF tt cs orth u0])
  define gamma where "gamma = angle_of_xy x' y'"
  have cg: "cos gamma = x'" and sg: "sin gamma = y'"
    unfolding gamma_def by (rule angle_of_xy_unit [OF unit])+
  have r00: "x' * ct - y' * (c * st) = n00"
    and r01: "x' * st + y' * (c * ct) = n01"
    and r02: "y' * s = n02"
    unfolding x'_def y'_def by (rule decomposition_row0 [OF tt cs orth])+
  have sct1: "s * ct = - b" and sct2: "s * st = a" using sct by simp_all
  have "- y' * ct - x' * (c * st) = - (s * ct) * n02 - c * n01"
    unfolding x'_def y'_def by (rule decomposition_row1(1) [OF tt cs])
  also have "\<dots> = b * n02 - c * n01" unfolding sct1 by simp
  finally have r10: "- y' * ct - x' * (c * st) = n10" unfolding cr0 .
  have "- y' * st + x' * (c * ct) = c * n00 - s * st * n02"
    unfolding x'_def y'_def by (rule decomposition_row1(2) [OF tt cs])
  also have "\<dots> = c * n00 - a * n02" unfolding sct2 by simp
  finally have r11: "- y' * st + x' * (c * ct) = n11" unfolding cr1 .
  have "x' * s = (s * st) * n01 + (s * ct) * n00"
    by (simp add: x'_def algebra_simps)
  also have "\<dots> = a * n01 - b * n00" unfolding sct1 sct2 by simp
  finally have r12: "x' * s = n12" unfolding cr2 .
  have "euler_rotation_matrix (theta, phi, gamma) = np_dot (rotation_matrix_transpose gamma OUT) P"
    by (simp only: euler_rotation_matrix_product P_def)
  also have "\<dots> = ((x' * ct - y' * (c * st), x' * st + y' * (c * ct), y' * s),
                    (- y' * ct - x' * (c * st), - y' * st + x' * (c * ct), x' * s),
                    (s * st, - (s * ct), c))"
    by (simp add: P rotation_matrix_transpose_OUT cg sg
          np_dot_def vec_mat_def dot3_def row0_def row1_def row2_def col0_def col1_def col2_def
          algebra_simps)
  also have "\<dots> = N"
    unfolding r00 r01 r02 r10 r11 r12 N using sct by simp
  finally have main: "euler_rotation_matrix (theta, phi, gamma) = N" .
  have t: "angle_of_vector (row2 N) + PI / 2 = theta"
    by (simp add: N row2_def angle_of_vector_def theta_def PI_def)
  have p: "arccos (clip (snd (snd (row2 N))) (- 1) 1) = phi"
    by (simp add: N row2_def clipc phi_def)
  have g: "angle_of_vector (col0 (np_dot P (mat_T N))) = gamma"
    by (simp add: col angle_of_vector_def gamma_def)
  show ?thesis
    unfolding t p using main g by (simp add: P_def)
qed


lemma euler_rotation_matrix_is_rotation:
  "\<exists>q. quat_norm2 q = 1 \<and> euler_rotation_matrix e = rotation_matrix_transpose_from_quaternion q"
proof -
  obtain theta phi gamma where e: "e = (theta, phi, gamma)" by (cases e) auto
  show ?thesis
    unfolding e euler_rotation_matrix_def prod.case
    using euler_quaternion_unit [of theta phi gamma] by blast
qed

lemma rotated_matrix_is_rotation:
  "is_rotation (np_dot (euler_rotation_matrix e) (rotation_matrix_transpose angle axis))"
proof -
  from euler_rotation_matrix_is_rotation [of e] obtain qR where
    qR: "quat_norm2 qR = 1" "euler_rotation_matrix e = rotation_matrix_transpose_from_quaternion qR"
    by blast
  from rotation_matrix_transpose_quaternion [of angle axis] obtain qA where
    qA: "quat_norm2 qA = 1"
      "rotation_matrix_transpose angle axis = rotation_matrix_transpose_from_quaternion qA"
    by blast
  have "np_dot (euler_rotation_matrix e) (rotation_matrix_transpose angle axis) =
      rotation_matrix_transpose_from_quaternion (quat_mult2 qA qR)"
    by (simp only: qR(2) qA(2) rmq_mult)
  moreover have "quat_norm2 (quat_mult2 qA qR) = 1"
    by (simp add: quat_norm2_mult qR(1) qA(1))
  ultimately show ?thesis by (simp add: rmq_is_rotation)
qed

text \<open>
  Every pose operation ends with \<^verbatim>\<open>refresh_rotation_matrix\<close>, so it leaves the stored
  matrix in agreement with the stored triple.
\<close>

lemma pose_op_refreshes_matrix:
  "inverse_camera_rotation_matrix (apply_pose_op f op) =
     euler_rotation_matrix (euler_angles (apply_pose_op f op))"
  by (cases op)
     (simp_all add: matrix_set_euler_angles set_phi_def reorient_def increment_theta_def
        increment_phi_def increment_gamma_def rotate_frame_def Let_def)

text \<open>
  Claim C3, over the reals: on a frame whose stored matrix is the one computed from its
  stored Euler triple (which every method of the frame re-establishes), \<^verbatim>\<open>rotate\<close> stores
  the triple obtained by the decomposition, and the matrix recomputed from that triple is
  exactly the product of the prior inverse rotation matrix with the transposed axis-angle
  rotation matrix. Exact equality of reals stands for equality within floating tolerance.
\<close>

theorem rotate_round_trip:
  "inverse_camera_rotation_matrix f = euler_rotation_matrix (euler_angles f) \<Longrightarrow>
     inverse_camera_rotation_matrix (rotate_frame angle axis f) =
       np_dot (inverse_camera_rotation_matrix f) (rotation_matrix_transpose angle axis) \<and>
     inverse_camera_rotation_matrix (rotate_frame angle axis f) =
       euler_rotation_matrix (euler_angles (rotate_frame angle axis f)) \<and>
     phi_of (rotate_frame angle axis f) =
       arccos (clip (snd (snd (row2 (np_dot (inverse_camera_rotation_matrix f)
                                            (rotation_matrix_transpose angle axis))))) (- 1) 1) \<and>
     theta_of (rotate_frame angle axis f) =
       angle_of_vector (row2 (np_dot (inverse_camera_rotation_matrix f)
                                     (rotation_matrix_transpose angle axis))) + pi / 2"
proof -
  assume inv: "inverse_camera_rotation_matrix f = euler_rotation_matrix (euler_angles f)"
  define N where "N = np_dot (inverse_camera_rotation_matrix f) (rotation_matrix_transpose angle axis)"
  have rot: "is_rotation N"
    unfolding N_def inv by (rule rotated_matrix_is_rotation)
  have "inverse_camera_rotation_matrix (rotate_frame angle axis f) =
      euler_rotation_matrix
          (angle_of_vector (row2 N) + PI / 2,
           arccos (clip (snd (snd (row2 N))) (- 1) 1),
           angle_of_vector (col0 (np_dot
              (np_dot (rotation_matrix_transpose (arccos (clip (snd (snd (row2 N))) (- 1) 1)) RIGHT)
                      (rotation_matrix_transpose (angle_of_vector (row2 N) + PI / 2) OUT))
              (mat_T N))))"
    by (simp add: rotate_frame_def Let_def matrix_set_euler_angles euler_angles_set_euler_angles
          merge_angles_def RADIANS_def get_inverse_camera_rotation_matrix_def N_def)
  also have "\<dots> = N" by (rule decompose_rotation [OF rot])
  finally have a: "inverse_camera_rotation_matrix (rotate_frame angle axis f) = N" .
  have b: "inverse_camera_rotation_matrix (rotate_frame angle axis f) =
       euler_rotation_matrix (euler_angles (rotate_frame angle axis f))"
    by (simp add: rotate_frame_def Let_def matrix_set_euler_angles)
  have c: "phi_of (rotate_frame angle axis f) = arccos (clip (snd (snd (row2 N))) (- 1) 1)"
    by (simp add: phi_of_rotate N_def)
  have d: "theta_of (rotate_frame angle axis f) = angle_of_vector (row2 N) + pi / 2"
    by (simp add: rotate_frame_def Let_def theta_of_set_euler_angles RADIANS_def PI_def N_def
          get_inverse_camera_rotation_matrix_def)
  from a b c d show ?thesis unfolding N_def by blast
qed

lemma euler_rotation_matrix_zero:
  "euler_rotation_matrix (0, 0, 0) = ((1, 0, 0), (0, 1, 0), (0, 0, 1))"
  by (simp add: euler_rotation_matrix_product rotation_matrix_transpose_OUT
        rotation_matrix_transpose_RIGHT np_dot_def vec_mat_def dot3_def
        row0_def row1_def row2_def col0_def col1_def col2_def)

theorem rotate_round_trip_witness:
  "inverse_camera_rotation_matrix example_frame = euler_rotation_matrix (euler_angles example_frame) \<and>
   inverse_camera_rotation_matrix (rotate_frame (pi / 2) (0, 0, 1) example_frame) =
     ((0, 1, 0), (- 1, 0, 0), (0, 0, 1))"
proof -
  have h: "inverse_camera_rotation_matrix example_frame =
      euler_rotation_matrix (euler_angles example_frame)"
    by (simp add: example_frame_def euler_rotation_matrix_zero)
  have "np_dot (inverse_camera_rotation_matrix example_frame)
          (rotation_matrix_transpose (pi / 2) (0, 0, 1)) =
      ((0, 1, 0), (- 1, 0, 0), (0, 0, 1))"
    by (simp add: example_frame_def rotation_matrix_transpose_OUT [unfolded OUT_def]
          np_dot_def vec_mat_def dot3_def row0_def row1_def row2_def col0_def col1_def col2_def)
  with rotate_round_trip [OF h, of "pi / 2" "(0, 0, 1)"] h show ?thesis by simp
qed

section \<open>Ranges of the stored angles\<close>










end
